theory Spec2Isabelle
  imports Complex_Main
begin

section \<open>Gravity Wars: the simulation core of \<open>src/app/page.tsx\<close>\<close>

text \<open>
  The client simulation keeps an array of mutable \<open>GameObject\<close>s and runs, once per
  frame, the AI policy, the gravity integrator, the orbital-risk rule, the energy rule and
  the collision pass over it.  The functions below follow the source function by function.

  \<^item> JavaScript numbers are modelled as \<^typ>\<open>real\<close>: the arithmetic is exact and \<open>NaN\<close> is
    not modelled.  The rounding of the doubles is modelled where a bound depends on it: in
    \<open>clampRounded\<close>, the speed clamp with a rounding function as parameter.
  \<^item> An optional field \<open>f?: T\<close> is a \<open>T option\<close>; \<open>None\<close> is \<open>undefined\<close>.
  \<^item> The object array is a list; a function that mutates \<open>obj\<close>, an element of the
    array, takes the index of \<open>obj\<close> and returns the updated array.
  \<^item> \<open>Math.random()\<close> and \<open>Date.now()\<close> are parameters of the functions that call them.
  \<^item> The fields \<open>id\<close>, \<open>x\<close>, \<open>y\<close> and \<open>type\<close> are called \<open>obj_id\<close>, \<open>xpos\<close>,
    \<open>ypos\<close> and \<open>obj_type\<close>.  Fields that none of the modelled functions reads or
    writes (\<open>color\<close>, \<open>pulsePhase\<close>, the \<open>orbit*\<close> fields, \<open>aiTarget\<close>,
    \<open>linkedWormhole\<close>, \<open>isLandmark\<close>) are left out.
\<close>

subsection \<open>Constants\<close>

definition GRAVITY_CONSTANT :: real where "GRAVITY_CONSTANT = 15 / 10"
definition MAX_VELOCITY :: real where "MAX_VELOCITY = 4"
definition ENERGY_DECAY_RATE :: real where "ENERGY_DECAY_RATE = 8 / 100"
definition GRAVITY_PULL_COST :: real where "GRAVITY_PULL_COST = 3"
definition CHARGING_RADIUS :: real where "CHARGING_RADIUS = 400"
definition GRAVITY_PULL_RADIUS :: real where "GRAVITY_PULL_RADIUS = 250"
definition GRAVITY_PULL_STRENGTH :: real where "GRAVITY_PULL_STRENGTH = 3 / 10"
definition ORBITAL_ABSORPTION_RATE :: real where "ORBITAL_ABSORPTION_RATE = 1 / 1000"
definition AI_GROWTH_RATE :: real where "AI_GROWTH_RATE = 2 / 10000"
definition AI_MAX_MASS :: real where "AI_MAX_MASS = 40"
definition ENERGY_ABSORPTION_RATE :: real where "ENERGY_ABSORPTION_RATE = 5 / 10"
definition MASS_ABSORPTION_RATE :: real where "MASS_ABSORPTION_RATE = 8 / 10"

text \<open>The frame time \<open>0.016\<close> that the source writes as a literal.\<close>

definition FRAME_DT :: real where "FRAME_DT = 16 / 1000"

subsection \<open>Data model\<close>

datatype ObjectType =
  Player | Ai | Debris | Planet | Star | Blackhole | Whitedwarf | Wormhole
  | Pulsar | Neutronstar | Comet | Asteroid | Spacestation | Anomaly

datatype AiState = Hunting | Fleeing | Exploring | Charging

record GameObject =
  obj_id :: string
  xpos :: real
  ypos :: real
  vx :: real
  vy :: real
  mass :: real
  radius :: real
  obj_type :: ObjectType
  energy :: "real option"
  maxEnergy :: "real option"
  isGlowing :: "bool option"
  chargingRate :: "real option"
  absorptionProgress :: "real option"
  lastMovementTime :: "real option"
  aiState :: "AiState option"

text \<open>Truthiness of the optional fields, as \<open>!o.isGlowing\<close>, \<open>o.energy && ...\<close> and
  \<open>(o.f || d)\<close> read them: \<open>undefined\<close>, \<open>false\<close> and \<open>0\<close> are falsy.\<close>

definition glowing :: "GameObject \<Rightarrow> bool" where
  "glowing obj = (isGlowing obj = Some True)"

definition truthy :: "real option \<Rightarrow> bool" where
  "truthy v = (case v of None \<Rightarrow> False | Some e \<Rightarrow> e \<noteq> 0)"

definition or_default :: "real option \<Rightarrow> real \<Rightarrow> real" where
  "or_default v d = (case v of None \<Rightarrow> d | Some e \<Rightarrow> if e = 0 then d else e)"

text \<open>\<open>Math.sqrt(dx * dx + dy * dy)\<close> between two bodies, \<open>dx\<close> and \<open>dy\<close> taken from
  the first to the second.\<close>

definition distance :: "GameObject \<Rightarrow> GameObject \<Rightarrow> real" where
  "distance a b =
     sqrt ((xpos b - xpos a) * (xpos b - xpos a) + (ypos b - ypos a) * (ypos b - ypos a))"

fun calculateRadius :: "real \<Rightarrow> ObjectType \<Rightarrow> real" where
  "calculateRadius m Player = max 6 (sqrt m * (12 / 10))"
| "calculateRadius m Ai = max 6 (sqrt m * (12 / 10))"
| "calculateRadius m Debris = max 2 (sqrt m * (12 / 10) * (8 / 10))"
| "calculateRadius m Asteroid = max 2 (sqrt m * (12 / 10) * (8 / 10))"
| "calculateRadius m Planet = max 12 (sqrt m * (12 / 10) * (11 / 10))"
| "calculateRadius m Star = max 18 (sqrt m * (12 / 10) * (13 / 10))"
| "calculateRadius m Blackhole = max 20 (sqrt m * (12 / 10) * (14 / 10))"
| "calculateRadius m Whitedwarf = max 10 (sqrt m * (12 / 10) * (9 / 10))"
| "calculateRadius m Wormhole = max 12 (sqrt m * (12 / 10))"
| "calculateRadius m Pulsar = max 15 (sqrt m * (12 / 10) * (11 / 10))"
| "calculateRadius m Neutronstar = max 8 (sqrt m * (12 / 10) * (7 / 10))"
| "calculateRadius m Comet = max 4 (sqrt m * (12 / 10) * (9 / 10))"
| "calculateRadius m Spacestation = max 8 (sqrt m * (12 / 10) * 1)"
| "calculateRadius m Anomaly = sqrt m * (12 / 10)"

subsection \<open>AI policy: \<open>updateAI\<close>\<close>

text \<open>The objects within 300 of the AI, itself (by id) excluded, in array order.\<close>

definition nearbyObjects :: "GameObject \<Rightarrow> GameObject list \<Rightarrow> GameObject list" where
  "nearbyObjects ai objects =
     filter (\<lambda>obj. obj_id obj \<noteq> obj_id ai \<and> distance ai obj < 300) objects"

definition smallerObjects :: "GameObject \<Rightarrow> GameObject list \<Rightarrow> GameObject list" where
  "smallerObjects ai objects =
     filter (\<lambda>obj. mass obj < mass ai \<and> \<not> glowing obj) (nearbyObjects ai objects)"

definition largerObjects :: "GameObject \<Rightarrow> GameObject list \<Rightarrow> GameObject list" where
  "largerObjects ai objects = filter (\<lambda>obj. mass obj > mass ai) (nearbyObjects ai objects)"

definition glowingObjects :: "GameObject \<Rightarrow> GameObject list \<Rightarrow> GameObject list" where
  "glowingObjects ai objects = filter glowing (nearbyObjects ai objects)"

text \<open>A constant push of size \<open>force\<close> from \<open>src\<close> towards \<open>tgt\<close>, skipped when the two
  coincide (\<open>if (distance > 0)\<close>).\<close>

definition accelerateToward :: "GameObject \<Rightarrow> GameObject \<Rightarrow> real \<Rightarrow> GameObject" where
  "accelerateToward ai target force =
     (let dx = xpos target - xpos ai; dy = ypos target - ypos ai;
          d = sqrt (dx * dx + dy * dy)
      in if d > 0 then ai\<lparr>vx := vx ai + (dx / d) * force, vy := vy ai + (dy / d) * force\<rparr>
         else ai)"

text \<open>One iteration of \<open>largerObjects.forEach\<close> in the fleeing branch.\<close>

definition fleeFrom :: "GameObject \<Rightarrow> GameObject \<Rightarrow> GameObject" where
  "fleeFrom threat ai =
     (let dx = xpos ai - xpos threat; dy = ypos ai - ypos threat;
          d = sqrt (dx * dx + dy * dy)
      in if d > 0 \<and> d < 150
         then ai\<lparr>vx := vx ai + (dx / d) * (15 / 100), vy := vy ai + (dy / d) * (15 / 100)\<rparr>
         else ai)"

text \<open>The passive growth of lines 619-622.\<close>

definition aiGrow :: "GameObject \<Rightarrow> GameObject" where
  "aiGrow ai =
     (if mass ai < AI_MAX_MASS
      then ai\<lparr>mass := mass ai + AI_GROWTH_RATE,
              radius := calculateRadius (mass ai + AI_GROWTH_RATE) (obj_type ai)\<rparr>
      else ai)"

text \<open>The decision of lines 638-685 on the AI \<open>ai\<close> (already grown).  \<open>rnd\<close> holds the
  three draws of \<open>Math.random()\<close> that the exploring branch may make.\<close>

definition aiDecide :: "real \<times> real \<times> real \<Rightarrow> GameObject \<Rightarrow> GameObject list \<Rightarrow> GameObject" where
  "aiDecide rnd ai objects =
     (if (case energy ai of None \<Rightarrow> False | Some e \<Rightarrow> e < 30) \<and> glowingObjects ai objects \<noteq> []
      then accelerateToward (ai\<lparr>aiState := Some Charging\<rparr>) (hd (glowingObjects ai objects)) (1 / 10)
      else if largerObjects ai objects \<noteq> []
      then foldl (\<lambda>a threat. fleeFrom threat a) (ai\<lparr>aiState := Some Fleeing\<rparr>)
             (largerObjects ai objects)
      else if smallerObjects ai objects \<noteq> []
      then accelerateToward (ai\<lparr>aiState := Some Hunting\<rparr>) (hd (smallerObjects ai objects)) (8 / 100)
      else (case rnd of (r1, r2, r3) \<Rightarrow>
              if r1 < 2 / 100
              then ai\<lparr>aiState := Some Exploring,
                      vx := vx ai + (r2 - 5 / 10) * (2 / 10),
                      vy := vy ai + (r3 - 5 / 10) * (2 / 10)\<rparr>
              else ai\<lparr>aiState := Some Exploring\<rparr>))"

text \<open>\<open>updateAI(ai, objects)\<close> with \<open>ai = objects[i]\<close>; \<open>now\<close> is \<open>Date.now()\<close>.  The two
  early returns leave the array as it is.\<close>

definition updateAI ::
  "real \<Rightarrow> real \<times> real \<times> real \<Rightarrow> nat \<Rightarrow> GameObject list \<Rightarrow> GameObject list" where
  "updateAI now rnd i objects =
     (if i \<ge> length objects then objects
      else let ai = objects ! i in
        if \<not> truthy (energy ai) then objects
        else if now - or_default (lastMovementTime ai) 0 < 100 then objects
        else objects[i := aiDecide rnd (aiGrow (ai\<lparr>lastMovementTime := Some now\<rparr>)) objects])"

subsection \<open>Force engine: \<open>applyGravity\<close>\<close>

text \<open>The contribution of one iteration of the first \<open>objects.forEach\<close> of
  \<open>applyGravity\<close> to \<open>(fx, fy)\<close>: nothing for a body with the id of \<open>obj\<close>, nothing at
  distance 0.\<close>

definition gravityTerm :: "GameObject \<Rightarrow> GameObject \<Rightarrow> real \<times> real" where
  "gravityTerm obj other =
     (if obj_id other = obj_id obj then (0, 0)
      else let dx = xpos other - xpos obj; dy = ypos other - ypos obj;
               d = sqrt (dx * dx + dy * dy)
           in if d > 0
              then let force = (GRAVITY_CONSTANT * mass other) / (d * d);
                       force' = (if glowing other then force * (13 / 10) else force)
                   in ((dx / d) * force', (dy / d) * force')
              else (0, 0))"

definition gravitySum :: "GameObject \<Rightarrow> GameObject list \<Rightarrow> real \<times> real" where
  "gravitySum obj objects =
     foldl (\<lambda>(fx, fy) other. (fx + fst (gravityTerm obj other), fy + snd (gravityTerm obj other)))
       (0, 0) objects"

text \<open>One iteration of the second \<open>forEach\<close> (the gravity-pull ability): \<open>other\<close> is
  drawn towards \<open>obj\<close>.\<close>

definition pullOther :: "GameObject \<Rightarrow> real \<Rightarrow> GameObject \<Rightarrow> GameObject" where
  "pullOther obj pullStrength other =
     (if obj_id other = obj_id obj \<or> mass other \<ge> mass obj then other
      else let dx = xpos obj - xpos other; dy = ypos obj - ypos other;
               d = sqrt (dx * dx + dy * dy)
           in if d > 0 \<and> d < GRAVITY_PULL_RADIUS
              then other\<lparr>vx := vx other + (dx / d) * (pullStrength / (d * d)),
                         vy := vy other + (dy / d) * (pullStrength / (d * d))\<rparr>
              else other)"

text \<open>Lines 749-767.  \<open>pullActive\<close> is \<open>gravityPullActiveRef.current\<close>; \<open>playerRef\<close> is
  the index in the array of the object that \<open>playerRef.current\<close> refers to (\<open>None\<close> for
  \<open>null\<close>).  The cost is subtracted from that object's energy as the source does it:
  \<open>energy -= GRAVITY_PULL_COST * 0.016\<close>.\<close>

definition gravityPull :: "bool \<Rightarrow> nat option \<Rightarrow> nat \<Rightarrow> GameObject list \<Rightarrow> GameObject list" where
  "gravityPull pullActive playerRef i objects =
     (case playerRef of
        None \<Rightarrow> objects
      | Some p \<Rightarrow>
          (if p < length objects then
             (case energy (objects ! p) of
                None \<Rightarrow> objects
              | Some e \<Rightarrow>
                  if pullActive \<and> obj_id (objects ! i) = ''player'' \<and> e > 0
                  then let pulled = map (pullOther (objects ! i)
                                           (mass (objects ! p) * GRAVITY_PULL_STRENGTH)) objects
                       in pulled[p := (pulled ! p)\<lparr>energy := Some (e - GRAVITY_PULL_COST * FRAME_DT)\<rparr>]
                  else objects)
           else objects))"

text \<open>Lines 769-776: add the summed force to the velocity and clamp the speed.\<close>

definition clampVelocity :: "GameObject \<Rightarrow> real \<times> real \<Rightarrow> GameObject" where
  "clampVelocity obj f =
     (let vx1 = vx obj + fst f; vy1 = vy obj + snd f;
          speed = sqrt (vx1 * vx1 + vy1 * vy1)
      in if speed > MAX_VELOCITY
         then obj\<lparr>vx := (vx1 / speed) * MAX_VELOCITY, vy := (vy1 / speed) * MAX_VELOCITY\<rparr>
         else obj\<lparr>vx := vx1, vy := vy1\<rparr>)"

definition applyGravity :: "bool \<Rightarrow> nat option \<Rightarrow> nat \<Rightarrow> GameObject list \<Rightarrow> GameObject list" where
  "applyGravity pullActive playerRef i objects =
     (if i \<ge> length objects then objects
      else let f = gravitySum (objects ! i) objects;
               objects1 = gravityPull pullActive playerRef i objects
           in objects1[i := clampVelocity (objects1 ! i) f])"

text \<open>The magnitude of a body's velocity, \<open>Math.sqrt(obj.vx * obj.vx + obj.vy * obj.vy)\<close>.\<close>

definition speed :: "GameObject \<Rightarrow> real" where
  "speed obj = sqrt (vx obj * vx obj + vy obj * vy obj)"

text \<open>The clamp of lines 772-776 as the machine computes it.  Every arithmetic result of
  the source is a double, the real result rounded: \<open>rnd\<close> is the rounding, a parameter.
  \<open>roundsToDouble\<close> is what is known of it: on the range of the finite doubles the
  rounded value is within one unit in the last place of the real one (relative error
  \<open>2^-52\<close>), or within the smallest subnormal \<open>2^-1074\<close> near zero.  Round-to-nearest, which
  the source's \<open>+\<close>, \<open>*\<close>, \<open>/\<close> and \<open>Math.sqrt\<close> use, is within half of that.  The argument
  of \<open>clampRounded\<close> is the pair of doubles that \<open>obj.vx\<close> and \<open>obj.vy\<close> hold after line
  770; with the identity for \<open>rnd\<close> it is the clamp of \<open>clampVelocity\<close>.\<close>

definition relErr :: real where "relErr = 1 / 2 ^ 52"
definition absErr :: real where "absErr = 1 / 2 ^ 1074"

definition roundsToDouble :: "(real \<Rightarrow> real) \<Rightarrow> bool" where
  "roundsToDouble rnd =
     (\<forall>x. \<bar>x\<bar> \<le> 2 ^ 1023 \<longrightarrow> \<bar>rnd x - x\<bar> \<le> \<bar>x\<bar> * relErr + absErr)"

definition clampRounded :: "(real \<Rightarrow> real) \<Rightarrow> real \<times> real \<Rightarrow> real \<times> real" where
  "clampRounded rnd v =
     (let vx1 = fst v; vy1 = snd v;
          s = rnd (sqrt (rnd (rnd (vx1 * vx1) + rnd (vy1 * vy1))))
      in if s > MAX_VELOCITY
         then (rnd (rnd (vx1 / s) * MAX_VELOCITY), rnd (rnd (vy1 / s) * MAX_VELOCITY))
         else (vx1, vy1))"

subsection \<open>Energy and risk: \<open>handleOrbitalMechanics\<close>, \<open>updateEnergy\<close>\<close>

definition playerMoving :: "string set \<Rightarrow> bool" where
  "playerMoving keys =
     (''arrowleft'' \<in> keys \<or> ''arrowright'' \<in> keys \<or> ''arrowup'' \<in> keys \<or> ''arrowdown'' \<in> keys
      \<or> ''a'' \<in> keys \<or> ''d'' \<in> keys \<or> ''w'' \<in> keys \<or> ''s'' \<in> keys)"

text \<open>Lines 580-591: the risk update while the player is inside the band of a glowing
  body.\<close>

definition riskUpdate :: "bool \<Rightarrow> GameObject \<Rightarrow> GameObject" where
  "riskUpdate moving obj =
     (if moving
      then obj\<lparr>absorptionProgress := Some (max 0 (or_default (absorptionProgress obj) 0 - 1 / 100))\<rparr>
      else let ap = or_default (absorptionProgress obj) 0 + ORBITAL_ABSORPTION_RATE
           in if ap > 1 then obj\<lparr>absorptionProgress := Some ap, energy := Some 0\<rparr>
              else obj\<lparr>absorptionProgress := Some ap\<rparr>)"

text \<open>One iteration of the \<open>forEach\<close> of \<open>handleOrbitalMechanics\<close> on the player
  \<open>obj\<close>.\<close>

definition orbitalStep :: "bool \<Rightarrow> GameObject \<Rightarrow> GameObject \<Rightarrow> GameObject" where
  "orbitalStep moving glowingObj obj =
     (if \<not> glowing glowingObj \<or> obj_id glowingObj = obj_id obj then obj
      else let dx = xpos glowingObj - xpos obj; dy = ypos glowingObj - ypos obj;
               d = sqrt (dx * dx + dy * dy);
               minOrbitDistance = radius glowingObj + radius obj + 10
           in if d < radius glowingObj + radius obj + 50
              then let obj1 = riskUpdate moving obj
                   in if d > minOrbitDistance
                      then obj1\<lparr>vx := vx obj1 + (- dy / d) * (2 / 100),
                                vy := vy obj1 + (dx / d) * (2 / 100)\<rparr>
                      else obj1
              else obj\<lparr>absorptionProgress := Some 0\<rparr>)"

definition handleOrbitalMechanics :: "string set \<Rightarrow> nat \<Rightarrow> GameObject list \<Rightarrow> GameObject list" where
  "handleOrbitalMechanics keys i objects =
     (if i \<ge> length objects then objects
      else if obj_type (objects ! i) = Player
      then objects[i := foldl (\<lambda>obj g. orbitalStep (playerMoving keys) g obj) (objects ! i) objects]
      else objects)"

text \<open>One iteration of the \<open>forEach\<close> of \<open>updateEnergy\<close>; \<open>maxE\<close> is \<open>obj.maxEnergy\<close>.\<close>

definition chargeStep :: "real \<Rightarrow> GameObject \<Rightarrow> GameObject \<Rightarrow> GameObject" where
  "chargeStep maxE other obj =
     (if \<not> glowing other \<or> obj_id other = obj_id obj then obj
      else let d = distance obj other
           in if d < CHARGING_RADIUS \<and> d > radius other + radius obj + 5
              then (case energy obj of
                      None \<Rightarrow> obj
                    | Some e \<Rightarrow>
                        obj\<lparr>energy := Some (min maxE
                          (e + or_default (chargingRate other) 1 * (1 - d / CHARGING_RADIUS) * FRAME_DT))\<rparr>)
              else obj)"

definition updateEnergy :: "nat \<Rightarrow> GameObject list \<Rightarrow> GameObject list" where
  "updateEnergy i objects =
     (if i \<ge> length objects then objects
      else case (energy (objects ! i), maxEnergy (objects ! i)) of
             (Some e, Some maxE) \<Rightarrow>
               objects[i := foldl (\<lambda>obj other. chargeStep maxE other obj)
                              ((objects ! i)\<lparr>energy := Some (max 0 (e - ENERGY_DECAY_RATE * FRAME_DT))\<rparr>)
                              objects]
           | _ \<Rightarrow> objects)"

subsection \<open>Discoverable activities: \<open>handleSpaceActivities\<close>\<close>

datatype ActivityType = DerelictShip | AncientRelic | EnergyCrystal | SpaceWhale | AlienStructure

text \<open>\<open>SpaceActivity\<close> without its \<open>color\<close> and \<open>description\<close>.\<close>

record SpaceActivity =
  act_id :: string
  act_type :: ActivityType
  act_x :: real
  act_y :: real
  act_radius :: real
  reward :: real
  discovered :: bool

text \<open>What the loop over the activities changes besides the activities themselves: the
  player object, the score (\<open>setScore\<close>) and the list of discovered ids
  (\<open>setDiscoveredActivities\<close>).\<close>

record Discovery =
  player :: GameObject
  score :: real
  discoveredActivities :: "string list"

definition inReach :: "GameObject \<Rightarrow> SpaceActivity \<Rightarrow> bool" where
  "inReach p activity =
     (sqrt ((act_x activity - xpos p) * (act_x activity - xpos p)
            + (act_y activity - ypos p) * (act_y activity - ypos p))
      < act_radius activity + radius p)"

text \<open>The body of \<open>spaceActivitiesRef.current.forEach\<close>.\<close>

definition discoverStep :: "SpaceActivity \<Rightarrow> Discovery \<Rightarrow> SpaceActivity \<times> Discovery" where
  "discoverStep activity st =
     (if inReach (player st) activity \<and> \<not> discovered activity
      then (activity\<lparr>discovered := True\<rparr>,
            st\<lparr>player := (if act_type activity = EnergyCrystal
                            then (player st)\<lparr>energy := maxEnergy (player st)\<rparr>
                            else player st),
               score := score st + reward activity,
               discoveredActivities := discoveredActivities st @ [act_id activity]\<rparr>)
      else (activity, st))"

fun discoverAll :: "SpaceActivity list \<Rightarrow> Discovery \<Rightarrow> SpaceActivity list \<times> Discovery" where
  "discoverAll [] st = ([], st)"
| "discoverAll (a # as) st =
     (case discoverStep a st of
        (a', st') \<Rightarrow> (case discoverAll as st' of (as', st'') \<Rightarrow> (a' # as', st'')))"

text \<open>\<open>handleSpaceActivities\<close>: nothing happens while \<open>playerRef.current\<close> is
  \<open>null\<close>.\<close>

definition handleSpaceActivities ::
  "GameObject option \<Rightarrow> SpaceActivity list \<Rightarrow> real \<Rightarrow> string list
     \<Rightarrow> SpaceActivity list \<times> GameObject option \<times> real \<times> string list" where
  "handleSpaceActivities playerRef activities sc disc =
     (case playerRef of
        None \<Rightarrow> (activities, None, sc, disc)
      | Some p \<Rightarrow>
          (case discoverAll activities \<lparr>player = p, score = sc, discoveredActivities = disc\<rparr> of
             (as', st) \<Rightarrow> (as', Some (player st), score st, discoveredActivities st)))"

subsection \<open>Collision and absorption: \<open>handleCollisions\<close>\<close>

record Collisions =
  objs :: "GameObject list"
  toRemove :: "string list"
  scoreIncrease :: real

text \<open>Lines 926-933: the teleport of the player \<open>obj2\<close> that touched the wormhole
  \<open>obj1\<close>.  \<open>wormholes\<close> is \<open>wormholesRef.current\<close>; \<open>rnd\<close> holds the three draws of
  \<open>Math.random()\<close>, each in \<open>[0, 1)\<close>, so that the index is in range.\<close>

definition teleport ::
  "GameObject list \<Rightarrow> real \<times> real \<times> real \<Rightarrow> GameObject \<Rightarrow> GameObject \<Rightarrow> GameObject" where
  "teleport wormholes rnd obj1 obj2 =
     (let availableWormholes = filter (\<lambda>w. obj_id w \<noteq> obj_id obj1) wormholes
      in if length availableWormholes > 0
         then (case rnd of (r1, r2, r3) \<Rightarrow>
                 let targetWormhole =
                       availableWormholes ! nat \<lfloor>r1 * real (length availableWormholes)\<rfloor>
                 in obj2\<lparr>xpos := xpos targetWormhole + (r2 - 5 / 10) * 100,
                         ypos := ypos targetWormhole + (r3 - 5 / 10) * 100,
                         vx := vx obj2 * (5 / 10),
                         vy := vy obj2 * (5 / 10)\<rparr>)
         else obj2)"

text \<open>Lines 953-958: what absorbing \<open>smaller\<close> does to \<open>larger\<close>.  \<open>Math.min\<close> with an
  undefined \<open>maxEnergy\<close> is \<open>NaN\<close> in the source; the model writes \<open>None\<close> there, which
  is falsy and fails every comparison as \<open>NaN\<close> does.\<close>

definition absorb :: "GameObject \<Rightarrow> GameObject \<Rightarrow> GameObject" where
  "absorb larger smaller =
     (let m = mass larger + mass smaller * MASS_ABSORPTION_RATE;
          larger1 = larger\<lparr>mass := m, radius := calculateRadius m (obj_type larger)\<rparr>
      in case (energy larger, energy smaller) of
           (Some el, Some es) \<Rightarrow>
             if el \<noteq> 0 \<and> es \<noteq> 0
             then larger1\<lparr>energy := (case maxEnergy larger of
                                       None \<Rightarrow> None
                                     | Some maxE \<Rightarrow> Some (min maxE (el + es * ENERGY_ABSORPTION_RATE)))\<rparr>
             else larger1
         | _ \<Rightarrow> larger1)"

text \<open>The body of the inner loop, for the indices \<open>i < j\<close>.\<close>

definition collidePair ::
  "GameObject list \<Rightarrow> real \<times> real \<times> real \<Rightarrow> nat \<Rightarrow> nat \<Rightarrow> Collisions \<Rightarrow> Collisions" where
  "collidePair wormholes rnd i j st =
     (let obj1 = objs st ! i; obj2 = objs st ! j
      in if distance obj1 obj2 < radius obj1 + radius obj2
         then if obj_type obj1 = Wormhole \<and> obj_type obj2 = Player
              then st\<lparr>objs := (objs st)[j := teleport wormholes rnd obj1 obj2]\<rparr>
              else if glowing obj1 \<and> obj_type obj2 = Player
                      \<and> or_default (absorptionProgress obj2) 0 > 1
              then st\<lparr>objs := (objs st)[j := obj2\<lparr>energy := Some 0\<rparr>]\<rparr>
              else if glowing obj2 \<and> obj_type obj1 = Player
                      \<and> or_default (absorptionProgress obj1) 0 > 1
              then st\<lparr>objs := (objs st)[i := obj1\<lparr>energy := Some 0\<rparr>]\<rparr>
              else let l = (if mass obj1 > mass obj2 then i else j);
                       s = (if mass obj1 > mass obj2 then j else i);
                       larger = objs st ! l; smaller = objs st ! s
                   in if \<not> glowing smaller \<and> \<not> glowing larger
                      then st\<lparr>objs := (objs st)[l := absorb larger smaller],
                              toRemove := toRemove st @ [obj_id smaller],
                              scoreIncrease := scoreIncrease st +
                                (if obj_id larger = ''player''
                                 then of_int \<lfloor>mass smaller * 20\<rfloor> else 0)\<rparr>
                      else st
         else st)"

text \<open>The index pairs in the order of the two nested \<open>for\<close> loops.\<close>

definition pairIndices :: "nat \<Rightarrow> (nat \<times> nat) list" where
  "pairIndices n = concat (map (\<lambda>i. map (\<lambda>j. (i, j)) [Suc i..<n]) [0..<n])"

definition collideAll ::
  "GameObject list \<Rightarrow> (nat \<Rightarrow> nat \<Rightarrow> real \<times> real \<times> real) \<Rightarrow> (nat \<times> nat) list
     \<Rightarrow> Collisions \<Rightarrow> Collisions" where
  "collideAll wormholes rnd ps st =
     foldl (\<lambda>st' (i, j). collidePair wormholes (rnd i j) i j st') st ps"

text \<open>\<open>handleCollisions(objects)\<close>; \<open>rnd i j\<close> are the draws available to the pair
  \<open>(i, j)\<close>.\<close>

definition handleCollisions ::
  "GameObject list \<Rightarrow> (nat \<Rightarrow> nat \<Rightarrow> real \<times> real \<times> real) \<Rightarrow> GameObject list \<Rightarrow> Collisions" where
  "handleCollisions wormholes rnd objects =
     collideAll wormholes rnd (pairIndices (length objects))
       \<lparr>objs = objects, toRemove = [], scoreIncrease = 0\<rparr>"

text \<open>Line 1572: the removal that \<open>gameLoop\<close> applies after the pass.\<close>

definition removeAbsorbed :: "Collisions \<Rightarrow> GameObject list" where
  "removeAbsorbed st = filter (\<lambda>obj. obj_id obj \<notin> set (toRemove st)) (objs st)"

text \<open>Line 923: two bodies touch when their centres are closer than the sum of their
  radii.\<close>

definition inContact :: "GameObject \<Rightarrow> GameObject \<Rightarrow> bool" where
  "inContact obj1 obj2 = (distance obj1 obj2 < radius obj1 + radius obj2)"

subsection \<open>The per-body step of \<open>gameLoop\<close>\<close>

text \<open>Lines 1551-1553: gravity is applied to a body unless it glows and is no
  wormhole.\<close>

definition gravityPhase :: "bool \<Rightarrow> nat option \<Rightarrow> nat \<Rightarrow> GameObject list \<Rightarrow> GameObject list" where
  "gravityPhase pullActive playerRef i objects =
     (if \<not> glowing (objects ! i) \<or> obj_type (objects ! i) = Wormhole
      then applyGravity pullActive playerRef i objects
      else objects)"

text \<open>Lines 1558-1562: integrate the position, damp the velocity.\<close>

definition integrate :: "GameObject \<Rightarrow> GameObject" where
  "integrate obj =
     obj\<lparr>xpos := xpos obj + vx obj, ypos := ypos obj + vy obj,
         vx := vx obj * (998 / 1000), vy := vy obj * (998 / 1000)\<rparr>"

text \<open>Lines 1546-1563: the body of \<open>objects.forEach\<close> for the body at index \<open>i\<close>.\<close>

definition bodyStep ::
  "string set \<Rightarrow> real \<Rightarrow> real \<times> real \<times> real \<Rightarrow> bool \<Rightarrow> nat option \<Rightarrow> nat
     \<Rightarrow> GameObject list \<Rightarrow> GameObject list" where
  "bodyStep keys now rnd pullActive playerRef i objects =
     (let objects1 = (if obj_type (objects ! i) = Ai then updateAI now rnd i objects else objects);
          objects2 = gravityPhase pullActive playerRef i objects1;
          objects3 = handleOrbitalMechanics keys i objects2;
          objects4 = updateEnergy i objects3
      in objects4[i := integrate (objects4 ! i)])"

subsection \<open>Concrete bodies\<close>

text \<open>An object literal with the mandatory fields only, at rest, as the generators of
  the source write it for debris, asteroids and planets.\<close>

definition body :: "string \<Rightarrow> ObjectType \<Rightarrow> real \<Rightarrow> real \<Rightarrow> real \<Rightarrow> real \<Rightarrow> GameObject" where
  "body ident t px py m r =
     \<lparr>obj_id = ident, xpos = px, ypos = py, vx = 0, vy = 0, mass = m, radius = r,
      obj_type = t, energy = None, maxEnergy = None, isGlowing = None, chargingRate = None,
      absorptionProgress = None, lastMovementTime = None, aiState = None\<rparr>"

text \<open>The player of \<open>initGame\<close> (mass 8, radius 6, energy 80 of 120), a star as
  \<open>generateObjectsAroundPlayer\<close> makes it, and an AI body.\<close>

definition startPlayer :: GameObject where
  "startPlayer = (body ''player'' Player 0 0 8 6)\<lparr>energy := Some 80, maxEnergy := Some 120\<rparr>"

definition starAt :: "real \<Rightarrow> real \<Rightarrow> GameObject" where
  "starAt px py =
     (body ''star-1'' Star px py 100 18)\<lparr>isGlowing := Some True, chargingRate := Some 8\<rparr>"

definition wormholeAt :: "string \<Rightarrow> real \<Rightarrow> real \<Rightarrow> GameObject" where
  "wormholeAt ident px py =
     (body ident Wormhole px py 20 12)\<lparr>isGlowing := Some True, chargingRate := Some 6\<rparr>"

definition aiBody :: "real \<Rightarrow> GameObject" where
  "aiBody e =
     (body ''ai-1'' Ai 0 0 5 6)\<lparr>energy := Some e, maxEnergy := Some 100,
        aiState := Some Exploring, lastMovementTime := Some 0\<rparr>"

text \<open>An energy crystal as \<open>generateSpaceActivities\<close> makes it (reward 75), with
  radius 15.\<close>

definition crystalAt :: "real \<Rightarrow> real \<Rightarrow> SpaceActivity" where
  "crystalAt px py =
     \<lparr>act_id = ''activity-1'', act_type = EnergyCrystal, act_x = px, act_y = py,
      act_radius = 15, reward = 75, discovered = False\<rparr>"

text \<open>A rounding that is exact but for the value 4, which it takes one half unit in the
  last place up.\<close>

definition roundUpAtFour :: "real \<Rightarrow> real" where
  "roundUpAtFour x = (if x = 4 then 4 + 4 / 2 ^ 53 else x)"

text \<open>Three pieces of debris on one spot, the lightest first in the array.\<close>

definition ghostObjects :: "GameObject list" where
  "ghostObjects = [body ''debris-b'' Debris 0 0 2 2, body ''debris-a'' Debris 0 0 10 3,
                   body ''debris-c'' Debris 0 0 5 (5 / 2)]"

section \<open>Verified properties\<close>

subsection \<open>Auxiliary facts\<close>

lemmas consts_defs = GRAVITY_CONSTANT_def MAX_VELOCITY_def ENERGY_DECAY_RATE_def
  GRAVITY_PULL_COST_def CHARGING_RADIUS_def GRAVITY_PULL_RADIUS_def GRAVITY_PULL_STRENGTH_def
  ORBITAL_ABSORPTION_RATE_def AI_GROWTH_RATE_def AI_MAX_MASS_def ENERGY_ABSORPTION_RATE_def
  MASS_ABSORPTION_RATE_def FRAME_DT_def

lemmas bodies_defs = body_def startPlayer_def starAt_def wormholeAt_def aiBody_def

text \<open>Comparisons with a square root, decided without computing the root.\<close>

lemma sqrt_less_iff_sq: "0 < c \<Longrightarrow> (sqrt x < c) = (x < c * c)"
  by (metis real_sqrt_less_iff real_sqrt_abs2 abs_of_pos)

lemma sq_less_sqrt_iff: "0 \<le> c \<Longrightarrow> (c < sqrt x) = (c * c < x)"
  by (metis real_sqrt_less_iff real_sqrt_abs2 abs_of_nonneg)

lemma sqrt_le_iff_sq: "0 \<le> c \<Longrightarrow> (sqrt x \<le> c) = (x \<le> c * c)"
  by (metis real_sqrt_le_iff real_sqrt_abs2 abs_of_nonneg)

lemma sqrt_100: "sqrt 100 = 10"
  by (rule real_sqrt_unique) simp_all

lemma sqrt_1600: "sqrt 1600 = 40"
  by (rule real_sqrt_unique) simp_all


subsection \<open>Gravity: the summed force and the speed clamp\<close>

lemma gravitySum_fold:
  "foldl (\<lambda>(fx, fy) other. (fx + fst (gravityTerm obj other), fy + snd (gravityTerm obj other)))
     (a, b) objects
   = (a + (\<Sum>other\<leftarrow>objects. fst (gravityTerm obj other)),
      b + (\<Sum>other\<leftarrow>objects. snd (gravityTerm obj other)))"
  by (induction objects arbitrary: a b) (simp_all add: algebra_simps)

lemma gravitySum_sum:
  "gravitySum obj objects =
     (\<Sum>other\<leftarrow>objects. fst (gravityTerm obj other), \<Sum>other\<leftarrow>objects. snd (gravityTerm obj other))"
  unfolding gravitySum_def gravitySum_fold by simp

lemma gravityTerm_far:
  assumes "obj_id other \<noteq> obj_id obj" and "distance obj other > 0"
  shows "gravityTerm obj other =
        (let d = distance obj other;
             force = GRAVITY_CONSTANT * mass other / d\<^sup>2 * (if glowing other then 13 / 10 else 1)
         in ((xpos other - xpos obj) / d * force, (ypos other - ypos obj) / d * force))"
  using assms by (simp add: gravityTerm_def distance_def Let_def power2_eq_square)

lemma gravityTerm_zero:
  assumes "distance obj other = 0"
  shows "gravityTerm obj other = (0, 0)"
  using assms by (simp add: gravityTerm_def distance_def Let_def)

text \<open>Rescaling a vector by \<open>c\<close> over its length gives a vector of length \<open>\<bar>c\<bar>\<close>.\<close>

lemma scaled_speed:
  fixes a b s :: real
  assumes "s = sqrt (a * a + b * b)" and "s > 0"
  shows "sqrt ((a / s * c) * (a / s * c) + (b / s * c) * (b / s * c)) = \<bar>c\<bar>"
proof -
  have "(a / s * c) * (a / s * c) + (b / s * c) * (b / s * c) = (c * c) * ((a * a + b * b) / (s * s))"
    by (simp add: algebra_simps add_divide_distrib)
  also have "s * s = a * a + b * b"
    using assms by (metis abs_of_nonneg real_sqrt_mult_self add_nonneg_nonneg zero_le_square)
  finally have "(a / s * c) * (a / s * c) + (b / s * c) * (b / s * c) = c * c"
    using assms by auto
  then show ?thesis by simp
qed

text \<open>In exact arithmetic the clamp leaves a speed of at most \<open>MAX_VELOCITY\<close>.\<close>

lemma clampVelocity_speed: "speed (clampVelocity obj f) \<le> MAX_VELOCITY"
proof -
  define a where "a = vx obj + fst f"
  define b where "b = vy obj + snd f"
  define s where "s = sqrt (a * a + b * b)"
  show ?thesis
  proof (cases "s > MAX_VELOCITY")
    case True
    then have pos: "s > 0" by (simp add: MAX_VELOCITY_def)
    have "clampVelocity obj f = obj\<lparr>vx := (a / s) * MAX_VELOCITY, vy := (b / s) * MAX_VELOCITY\<rparr>"
      using True by (simp add: clampVelocity_def Let_def a_def b_def s_def)
    then show ?thesis
      using scaled_speed [OF s_def pos, of MAX_VELOCITY] by (simp add: MAX_VELOCITY_def speed_def)
  next
    case False
    then have "clampVelocity obj f = obj\<lparr>vx := a, vy := b\<rparr>"
      by (simp add: clampVelocity_def Let_def a_def b_def s_def)
    then show ?thesis using False by (simp add: s_def speed_def)
  qed
qed

lemma pullOther_self: "pullOther obj ps obj = obj"
  by (simp add: pullOther_def)

lemma gravityPull_length [simp]: "length (gravityPull pa pr i objects) = length objects"
  by (simp add: gravityPull_def Let_def split: option.splits)

text \<open>The pull ability never touches the velocity of the body it is cast from.\<close>

lemma gravityPull_velocity:
  assumes "i < length objects"
  shows "vx (gravityPull pa pr i objects ! i) = vx (objects ! i)
       \<and> vy (gravityPull pa pr i objects ! i) = vy (objects ! i)"
  using assms
  by (auto simp: gravityPull_def Let_def pullOther_self nth_list_update split: option.splits)

lemma applyGravity_nth:
  assumes "i < length objects"
  shows "applyGravity pa pr i objects ! i =
           clampVelocity (gravityPull pa pr i objects ! i) (gravitySum (objects ! i) objects)"
  using assms by (simp add: applyGravity_def Let_def)

subsection \<open>The speed clamp under rounding\<close>

lemma rounded_bounds:
  assumes "roundsToDouble rnd" and "\<bar>x\<bar> \<le> 2 ^ 1023"
  shows "rnd x \<le> x + \<bar>x\<bar> * relErr + absErr"
    and "x - \<bar>x\<bar> * relErr - absErr \<le> rnd x"
    and "\<bar>rnd x\<bar> \<le> \<bar>x\<bar> * (1 + relErr) + absErr"
proof -
  from assms have h: "\<bar>rnd x - x\<bar> \<le> \<bar>x\<bar> * relErr + absErr"
    by (simp add: roundsToDouble_def)
  then show "rnd x \<le> x + \<bar>x\<bar> * relErr + absErr"
    and "x - \<bar>x\<bar> * relErr - absErr \<le> rnd x" by linarith+
  from h have "\<bar>rnd x\<bar> \<le> \<bar>x\<bar> + (\<bar>x\<bar> * relErr + absErr)" by linarith
  then show "\<bar>rnd x\<bar> \<le> \<bar>x\<bar> * (1 + relErr) + absErr" by (simp add: algebra_simps)
qed

text \<open>The computed speed against the exact squared norm.\<close>

lemma computed_speed:
  fixes a b :: real
  assumes H: "roundsToDouble rnd" and a: "\<bar>a\<bar> \<le> 2 ^ 500" and b: "\<bar>b\<bar> \<le> 2 ^ 500"
    and s: "s = rnd (sqrt (rnd (rnd (a * a) + rnd (b * b))))"
  shows "a * a + b * b \<le> 15 \<Longrightarrow> s < 4"
    and "15 < a * a + b * b \<Longrightarrow>
           sqrt (a * a + b * b) * ((1 - relErr - absErr) * (1 - relErr) - absErr) \<le> s"
proof -
  define u :: real where "u = relErr"
  define h :: real where "h = absErr"
  have uh: "u = 1 / 2 ^ 52" "h = 1 / 2 ^ 1074" by (simp_all add: u_def h_def relErr_def absErr_def)
  define p where "p = rnd (a * a)"
  define q where "q = rnd (b * b)"
  define r where "r = rnd (p + q)"
  define N2 where "N2 = a * a + b * b"
  have upos: "0 < u" "u < 1" "0 < h" "h < 1" by (simp_all add: uh)
  have small: "u \<le> 1 / 1000" "h \<le> 1 / 1000" by (simp_all add: uh)
  have aa: "0 \<le> a * a" "a * a \<le> 2 ^ 1000" and bb: "0 \<le> b * b" "b * b \<le> 2 ^ 1000"
  proof -
    show "0 \<le> a * a" "0 \<le> b * b" by simp_all
    have "\<bar>a\<bar> * \<bar>a\<bar> \<le> 2 ^ 500 * 2 ^ 500" using a by (intro mult_mono) simp_all
    then show "a * a \<le> 2 ^ 1000" by (simp add: abs_mult_self_eq)
    have "\<bar>b\<bar> * \<bar>b\<bar> \<le> 2 ^ 500 * 2 ^ 500" using b by (intro mult_mono) simp_all
    then show "b * b \<le> 2 ^ 1000" by (simp add: abs_mult_self_eq)
  qed
  have ra: "\<bar>a * a\<bar> \<le> 2 ^ 1023" and rb: "\<bar>b * b\<bar> \<le> 2 ^ 1023"
    using aa bb by simp_all
  have p: "p \<le> a * a * (1 + u) + h" "a * a * (1 - u) - h \<le> p"
    using rounded_bounds(1,2) [OF H ra] aa by (simp_all add: p_def u_def h_def algebra_simps)
  have q: "q \<le> b * b * (1 + u) + h" "b * b * (1 - u) - h \<le> q"
    using rounded_bounds(1,2) [OF H rb] bb by (simp_all add: q_def u_def h_def algebra_simps)
  have pq: "p + q \<le> N2 * (1 + u) + 2 * h" "N2 * (1 - u) - 2 * h \<le> p + q"
    using p q by (simp_all add: N2_def algebra_simps)
  have N2b: "0 \<le> N2" "N2 \<le> 2 ^ 1001" using aa bb by (simp_all add: N2_def)
  have "N2 * (1 + u) + 2 * h \<le> 2 ^ 1001 * 2 + 2"
    using N2b upos by (intro add_mono mult_mono) simp_all
  moreover have nn: "0 \<le> N2 * (1 - u)" using N2b(1) upos by (intro mult_nonneg_nonneg) simp_all
  then have "- 2 \<le> N2 * (1 - u) - 2 * h" using upos by linarith
  ultimately have rpq: "\<bar>p + q\<bar> \<le> 2 ^ 1023" using pq by simp
  have r: "r \<le> (p + q) + \<bar>p + q\<bar> * u + h" "(p + q) - \<bar>p + q\<bar> * u - h \<le> r"
    using rounded_bounds(1,2) [OF H rpq] by (simp_all add: r_def u_def h_def)
  have rabs: "\<bar>r\<bar> \<le> \<bar>p + q\<bar> * (1 + u) + h"
    using rounded_bounds(3) [OF H rpq] by (simp add: r_def u_def h_def)
  have "\<bar>p + q\<bar> \<le> 2 ^ 1001 * 2 + 2"
    using pq \<open>N2 * (1 + u) + 2 * h \<le> 2 ^ 1001 * 2 + 2\<close> \<open>- 2 \<le> N2 * (1 - u) - 2 * h\<close> by simp
  then have "\<bar>p + q\<bar> * (1 + u) + h \<le> (2 ^ 1001 * 2 + 2) * 2 + 1"
    using upos by (intro add_mono mult_mono) simp_all
  with rabs have rbig: "\<bar>r\<bar> \<le> 2 ^ 1004" by simp
  have "\<bar>sqrt r\<bar> = sqrt \<bar>r\<bar>" by (simp add: real_sqrt_abs')
  also have "\<dots> \<le> 2 ^ 502"
    using rbig by (intro real_le_lsqrt) simp_all
  finally have sq: "\<bar>sqrt r\<bar> \<le> 2 ^ 1023" by simp
  have sb: "s \<le> sqrt r + \<bar>sqrt r\<bar> * u + h" "sqrt r - \<bar>sqrt r\<bar> * u - h \<le> s"
    using rounded_bounds(1,2) [OF H sq] by (simp_all add: s r_def p_def q_def u_def h_def)
  show "s < 4" if "a * a + b * b \<le> 15"
  proof -
    from that have "N2 \<le> 15" by (simp add: N2_def)
    then have "N2 * (1 + u) \<le> 15 * (1 + u)" using upos by (intro mult_right_mono) simp_all
    with pq have 1: "p + q \<le> 15 * (1 + u) + 2 * h" by simp
    have 2: "- (2 * h) \<le> p + q" using pq(2) nn by linarith
    from 1 2 have "\<bar>p + q\<bar> \<le> 15 * (1 + u) + 2 * h" using upos by simp
    then have "\<bar>p + q\<bar> * (1 + u) \<le> (15 * (1 + u) + 2 * h) * (1 + u)"
      using upos by (intro mult_right_mono) simp_all
    with rabs have "\<bar>r\<bar> \<le> (15 * (1 + u) + 2 * h) * (1 + u) + h" by linarith
    also have "\<dots> \<le> 1521 / 100"
    proof -
      have "(15 * (1 + u) + 2 * h) * (1 + u) \<le> (1502 / 100) * (1001 / 1000)"
        using upos small by (intro mult_mono) simp_all
      then show ?thesis using small by simp
    qed
    finally have "sqrt \<bar>r\<bar> \<le> 39 / 10"
      by (intro real_le_lsqrt) (simp_all add: power2_eq_square)
    then have "\<bar>sqrt r\<bar> \<le> 39 / 10" by (simp add: real_sqrt_abs')
    moreover from this have "\<bar>sqrt r\<bar> * u \<le> 39 / 10 * u"
      using upos by (intro mult_right_mono) simp_all
    ultimately have "sqrt r + \<bar>sqrt r\<bar> * u + h \<le> 39 / 10 + 39 / 10 * u + h" by linarith
    also have "\<dots> < 4" using small by simp
    finally show ?thesis using sb(1) by simp
  qed
  show "sqrt (a * a + b * b) * ((1 - relErr - absErr) * (1 - relErr) - absErr) \<le> s"
    if "15 < a * a + b * b"
  proof -
    from that have big: "15 < N2" by (simp add: N2_def)
    define N where "N = sqrt N2"
    have N: "0 \<le> N" "N * N = N2" "1 \<le> N"
    proof -
      show "0 \<le> N" using N2b by (simp add: N_def)
      show "N * N = N2" using N2b by (simp add: N_def)
      have "sqrt 1 \<le> sqrt N2" using big by (subst real_sqrt_le_iff) simp
      then show "1 \<le> N" by (simp add: N_def)
    qed
    have pqpos: "0 \<le> p + q"
    proof -
      have "15 * (1 - u) \<le> N2 * (1 - u)" using big upos by (intro mult_right_mono) simp_all
      moreover have "0 \<le> 15 * (1 - u) - 2 * h" using small by simp
      ultimately show ?thesis using pq(2) by linarith
    qed
    then have "(p + q) * (1 - u) - h \<le> r" using r(2) by (simp add: algebra_simps)
    moreover have "(N2 * (1 - u) - 2 * h) * (1 - u) \<le> (p + q) * (1 - u)"
      using pq(2) upos by (intro mult_right_mono) simp_all
    ultimately have "N2 * (1 - u) * (1 - u) - 2 * h * (1 - u) - h \<le> r"
      by (simp add: algebra_simps)
    moreover have "2 * h * (1 - u) + h \<le> 3 * h" using upos by (simp add: algebra_simps)
    moreover have "3 * h \<le> N2 * h" using big upos by (intro mult_right_mono) simp_all
    ultimately have rlow: "N2 * ((1 - u) * (1 - u) - h) \<le> r" by (simp add: algebra_simps)
    define c where "c = 1 - u - h"
    have "(1 - u) * (1 - u) - h - c * c = h * (1 - 2 * u - h)"
      by (simp add: c_def algebra_simps)
    moreover have "0 \<le> h * (1 - 2 * u - h)"
      using upos small by (intro mult_nonneg_nonneg) simp_all
    ultimately have k: "c * c \<le> (1 - u) * (1 - u) - h" by linarith
    have kpos: "0 \<le> c" using small by (simp add: c_def)
    have "(N * c)\<^sup>2 = (N * N) * (c * c)"
      by (simp add: power2_eq_square)
    also have "\<dots> = N2 * (c * c)" by (simp add: N(2))
    also have "\<dots> \<le> N2 * ((1 - u) * (1 - u) - h)" using k N2b by (intro mult_left_mono) simp_all
    also have "\<dots> \<le> r" by (rule rlow)
    finally have low: "N * c \<le> sqrt r" by (rule real_le_rsqrt)
    have "0 \<le> N * c" using N(1) kpos by simp
    with low have rpos: "0 \<le> sqrt r" by linarith
    have "N * c * (1 - u) \<le> sqrt r * (1 - u)"
      using low upos by (intro mult_right_mono) simp_all
    moreover have "sqrt r * (1 - u) - h \<le> s" using sb(2) rpos by (simp add: algebra_simps)
    ultimately have "N * c * (1 - u) - h \<le> s" by linarith
    moreover have "1 * h \<le> N * h" using N(3) upos by (intro mult_right_mono) simp_all
    ultimately have "N * (c * (1 - u) - h) \<le> s" by (simp add: algebra_simps)
    then show ?thesis by (simp add: N_def N2_def c_def u_def h_def)
  qed
qed

text \<open>One rescaled component: \<open>rnd (rnd (a / s) * 4)\<close> against \<open>4 * a / s\<close>.\<close>

lemma rescaled_component:
  fixes a s :: real
  assumes H: "roundsToDouble rnd" and a: "\<bar>a\<bar> \<le> 2 ^ 500" and s: "4 < s"
  shows "\<bar>rnd (rnd (a / s) * 4)\<bar>
           \<le> (4 * (1 + relErr) * (1 + relErr) / s) * \<bar>a\<bar> + (4 * absErr * (1 + relErr) + absErr)"
proof -
  define u where "u = relErr"
  define h where "h = absErr"
  have upos: "0 < u" "u < 1" "0 < h" "h < 1"
    by (simp_all add: u_def h_def relErr_def absErr_def)
  define c where "c = rnd (a / s)"
  have "\<bar>a / s\<bar> = \<bar>a\<bar> / s" using s by simp
  also have "\<dots> \<le> \<bar>a\<bar> / 1" using s by (intro divide_left_mono) simp_all
  finally have q: "\<bar>a / s\<bar> \<le> 2 ^ 500" using a by simp
  then have q': "\<bar>a / s\<bar> \<le> 2 ^ 1023" by simp
  have c: "\<bar>c\<bar> \<le> \<bar>a / s\<bar> * (1 + u) + h"
    using rounded_bounds(3) [OF H q'] by (simp add: c_def u_def h_def)
  have "\<bar>a / s\<bar> * (1 + u) \<le> 2 ^ 500 * 2" using q upos by (intro mult_mono) simp_all
  with c upos have "\<bar>c\<bar> \<le> 2 ^ 500 * 2 + 1" by linarith
  then have "\<bar>c * 4\<bar> \<le> (2 ^ 500 * 2 + 1) * 4" by simp
  then have m: "\<bar>c * 4\<bar> \<le> 2 ^ 1023" by simp
  have "\<bar>rnd (c * 4)\<bar> \<le> \<bar>c * 4\<bar> * (1 + u) + h"
    using rounded_bounds(3) [OF H m] by (simp add: u_def h_def)
  also have "\<bar>c * 4\<bar> = 4 * \<bar>c\<bar>" by simp
  also have "4 * \<bar>c\<bar> * (1 + u) + h \<le> 4 * (\<bar>a / s\<bar> * (1 + u) + h) * (1 + u) + h"
    using c upos by (simp add: mult_right_mono)
  also have "\<dots> = (4 * (1 + u) * (1 + u) / s) * \<bar>a\<bar> + (4 * h * (1 + u) + h)"
    using s by (simp add: algebra_simps)
  finally show ?thesis by (simp add: c_def u_def h_def)
qed

lemma norm_le_bounds:
  fixes x y :: real
  assumes "\<bar>x\<bar> \<le> al * \<bar>a\<bar> + be" and "\<bar>y\<bar> \<le> al * \<bar>b\<bar> + be" and "0 \<le> al" and "0 \<le> be"
  shows "sqrt (x * x + y * y) \<le> al * sqrt (a * a + b * b) + 2 * be"
proof -
  have x: "x * x \<le> (al * \<bar>a\<bar> + be)\<^sup>2"
    using assms(1) by (metis abs_le_square_iff abs_ge_zero abs_of_nonneg order_trans power2_eq_square abs_mult_self_eq)
  have y: "y * y \<le> (al * \<bar>b\<bar> + be)\<^sup>2"
    using assms(2) by (metis abs_le_square_iff abs_ge_zero abs_of_nonneg order_trans power2_eq_square abs_mult_self_eq)
  have "sqrt (x * x + y * y) \<le> sqrt ((al * \<bar>a\<bar> + be)\<^sup>2 + (al * \<bar>b\<bar> + be)\<^sup>2)"
    using x y by simp
  also have "\<dots> \<le> sqrt ((al * \<bar>a\<bar>)\<^sup>2 + (al * \<bar>b\<bar>)\<^sup>2) + sqrt (be\<^sup>2 + be\<^sup>2)"
    by (rule real_sqrt_sum_squares_triangle_ineq)
  also have "(al * \<bar>a\<bar>)\<^sup>2 + (al * \<bar>b\<bar>)\<^sup>2 = al\<^sup>2 * (a * a + b * b)"
    by (simp add: power2_eq_square algebra_simps)
  also have "sqrt (al\<^sup>2 * (a * a + b * b)) = al * sqrt (a * a + b * b)"
    using assms(3) by (simp add: real_sqrt_mult)
  also have "sqrt (be\<^sup>2 + be\<^sup>2) \<le> 2 * be"
    using assms(4) by (intro real_le_lsqrt) (simp_all add: power2_eq_square)
  finally show ?thesis by simp
qed

text \<open>The clamp under any rounding that \<open>roundsToDouble\<close> admits: the exact magnitude of the
  result is within \<open>2^-49\<close> of the maximum, relatively.\<close>

lemma clampRounded_bound:
  fixes a b :: real
  assumes H: "roundsToDouble rnd" and a: "\<bar>a\<bar> \<le> 2 ^ 500" and b: "\<bar>b\<bar> \<le> 2 ^ 500"
  shows "sqrt (fst (clampRounded rnd (a, b)) * fst (clampRounded rnd (a, b))
               + snd (clampRounded rnd (a, b)) * snd (clampRounded rnd (a, b)))
           \<le> MAX_VELOCITY * (1 + 1 / 2 ^ 49)"
proof -
  define u where "u = relErr"
  define h where "h = absErr"
  define t :: real where "t = 1 / 2 ^ 49"
  have uv: "u = 1 / 2 ^ 52" by (simp add: u_def relErr_def)
  have upos: "0 < u" "0 < h" "h \<le> 1 / 2 ^ 100"
    by (simp_all add: u_def h_def relErr_def absErr_def)
  define s where "s = rnd (sqrt (rnd (rnd (a * a) + rnd (b * b))))"
  define N where "N = sqrt (a * a + b * b)"
  define k where "k = 1 - 2 * u - 2 * h"
  have N0: "0 \<le> N" by (simp add: N_def)
  have kk: "k \<le> (1 - u - h) * (1 - u) - h"
  proof -
    have "(1 - u - h) * (1 - u) - h - k = u * u + h * u" by (simp add: k_def algebra_simps)
    moreover have "0 \<le> u * u + h * u" using upos by simp
    ultimately show ?thesis by linarith
  qed
  have kpos: "0 < k" using upos by (simp add: k_def uv)
  have k1: "1 \<le> (1 + t) * k"
  proof -
    have "1 - 2 * u - 2 * (1 / 2 ^ 100) \<le> k" using upos by (simp add: k_def)
    then have "(1 + t) * (1 - 2 * u - 2 * (1 / 2 ^ 100)) \<le> (1 + t) * k"
      by (intro mult_left_mono) (simp_all add: t_def)
    moreover have "1 \<le> (1 + t) * (1 - 2 * u - 2 * (1 / 2 ^ 100))" by (simp add: t_def uv)
    ultimately show ?thesis by linarith
  qed
  have low: "N * k \<le> s" if "15 < a * a + b * b"
  proof -
    have "N * k \<le> N * ((1 - u - h) * (1 - u) - h)" using kk N0 by (intro mult_left_mono) simp_all
    also have "\<dots> \<le> s"
      using computed_speed(2) [OF H a b s_def that] by (simp add: N_def u_def h_def)
    finally show ?thesis .
  qed
  show ?thesis
  proof (cases "s > MAX_VELOCITY")
    case False
    then have res: "clampRounded rnd (a, b) = (a, b)"
      by (simp add: clampRounded_def Let_def s_def)
    have "N \<le> 4 * (1 + t)"
    proof (cases "15 < a * a + b * b")
      case True
      have "N * 1 \<le> N * ((1 + t) * k)" using k1 N0 by (intro mult_left_mono) simp_all
      also have "\<dots> = (N * k) * (1 + t)" by simp
      also have "\<dots> \<le> s * (1 + t)" using low [OF True] by (intro mult_right_mono) (simp_all add: t_def)
      also have "\<dots> \<le> 4 * (1 + t)"
        using False by (intro mult_right_mono) (simp_all add: t_def MAX_VELOCITY_def)
      finally show ?thesis by simp
    next
      case False
      then have "N \<le> 4" unfolding N_def by (intro real_le_lsqrt) simp_all
      then show ?thesis by (simp add: t_def)
    qed
    then show ?thesis by (simp add: res N_def t_def MAX_VELOCITY_def)
  next
    case True
    then have s4: "4 < s" by (simp add: MAX_VELOCITY_def)
    have big: "15 < a * a + b * b"
      using computed_speed(1) [OF H a b s_def] s4 by fastforce
    define al where "al = 4 * (1 + u) * (1 + u) / s"
    define be where "be = 4 * h * (1 + u) + h"
    define x where "x = rnd (rnd (a / s) * 4)"
    define y where "y = rnd (rnd (b / s) * 4)"
    have res: "clampRounded rnd (a, b) = (x, y)"
      using True by (simp add: clampRounded_def Let_def s_def x_def y_def MAX_VELOCITY_def)
    have x: "\<bar>x\<bar> \<le> al * \<bar>a\<bar> + be"
      using rescaled_component [OF H a s4] by (simp add: x_def al_def be_def u_def h_def)
    have y: "\<bar>y\<bar> \<le> al * \<bar>b\<bar> + be"
      using rescaled_component [OF H b s4] by (simp add: y_def al_def be_def u_def h_def)
    have al0: "0 \<le> al" using upos s4 by (simp add: al_def)
    have be0: "0 \<le> be" using upos by (simp add: be_def)
    have n: "sqrt (x * x + y * y) \<le> al * N + 2 * be"
      unfolding N_def by (rule norm_le_bounds [OF x y al0 be0])
    have "N * k \<le> s" by (rule low [OF big])
    then have Ns: "N / s \<le> 1 / k" using kpos s4 by (simp add: field_simps)
    have "al * N = (4 * (1 + u) * (1 + u)) * (N / s)" by (simp add: al_def)
    also have "\<dots> \<le> (4 * (1 + u) * (1 + u)) * (1 / k)"
      using Ns upos by (intro mult_left_mono) simp_all
    finally have alN: "al * N \<le> 4 * (1 + u) * (1 + u) / k" by simp
    have be9: "2 * be \<le> 1 / 2 ^ 90"
    proof -
      have "be \<le> 4 * h * 2 + h" using upos uv by (simp add: be_def)
      then show ?thesis using upos by simp
    qed
    have fin: "4 * (1 + u) * (1 + u) / k + 1 / 2 ^ 90 \<le> 4 * (1 + t)"
    proof -
      have "4 * (1 + u) * (1 + u) + (1 / 2 ^ 90) * k \<le> 4 * (1 + u) * (1 + u) + 1 / 2 ^ 90"
        using upos by (simp add: k_def)
      also have "\<dots> \<le> 4 * (1 + t) * (1 - 2 * u - 2 * (1 / 2 ^ 100))"
        by (simp add: t_def uv)
      also have "\<dots> \<le> 4 * (1 + t) * k"
        using upos by (intro mult_left_mono) (simp_all add: k_def t_def)
      finally have "4 * (1 + u) * (1 + u) + (1 / 2 ^ 90) * k \<le> 4 * (1 + t) * k" .
      then show ?thesis using kpos by (simp add: field_simps)
    qed
    from n alN be9 fin have "sqrt (x * x + y * y) \<le> 4 * (1 + t)" by linarith
    then show ?thesis by (simp add: res t_def MAX_VELOCITY_def)
  qed
qed

lemma roundsToDouble_exact: "roundsToDouble (\<lambda>x. x)"
  by (simp add: roundsToDouble_def relErr_def absErr_def)

lemma roundsToDouble_roundUpAtFour: "roundsToDouble roundUpAtFour"
  by (simp add: roundsToDouble_def roundUpAtFour_def relErr_def absErr_def)

lemma clampVelocity_exact:
  "(vx (clampVelocity obj f), vy (clampVelocity obj f))
     = clampRounded (\<lambda>x. x) (vx obj + fst f, vy obj + snd f)"
  by (simp add: clampVelocity_def clampRounded_def Let_def)

subsection \<open>Energy: what decay, charging and absorption keep\<close>

lemma chargeStep_velocity [simp]:
  "vx (chargeStep m other obj) = vx obj" "vy (chargeStep m other obj) = vy obj"
  by (simp_all add: chargeStep_def Let_def split: option.splits)

lemma foldl_chargeStep_velocity [simp]:
  "vx (foldl (\<lambda>obj other. chargeStep m other obj) obj os) = vx obj"
  "vy (foldl (\<lambda>obj other. chargeStep m other obj) obj os) = vy obj"
  by (induction os arbitrary: obj) simp_all

lemma updateEnergy_length [simp]: "length (updateEnergy i objects) = length objects"
  by (simp add: updateEnergy_def split: option.splits)

lemma updateEnergy_velocity:
  "i < length objects \<Longrightarrow>
     vx (updateEnergy i objects ! i) = vx (objects ! i)
     \<and> vy (updateEnergy i objects ! i) = vy (objects ! i)"
  by (simp add: updateEnergy_def split: option.splits)

lemma handleOrbitalMechanics_other:
  "obj_type (objects ! i) \<noteq> Player \<Longrightarrow> handleOrbitalMechanics keys i objects = objects"
  by (simp add: handleOrbitalMechanics_def)

lemma bodyStep_exempt_velocity:
  assumes "i < length objects" and "glowing (objects ! i)" and "obj_type (objects ! i) \<noteq> Wormhole"
    and "obj_type (objects ! i) \<noteq> Ai" and "obj_type (objects ! i) \<noteq> Player"
  shows "vx (bodyStep keys now rnd pullActive playerRef i objects ! i) = vx (objects ! i) * (998 / 1000)
       \<and> vy (bodyStep keys now rnd pullActive playerRef i objects ! i) = vy (objects ! i) * (998 / 1000)"
  using assms updateEnergy_velocity [of i objects]
  by (simp add: bodyStep_def gravityPhase_def handleOrbitalMechanics_other integrate_def Let_def)

text \<open>One charging iteration keeps an energy that is in \<open>[0, m]\<close> there, for a
  charging rate that is not negative.\<close>

lemma chargeStep_energy_bounds:
  assumes "energy obj = Some e" and "0 \<le> e" and "e \<le> m" and "0 \<le> or_default (chargingRate other) 1"
  shows "\<exists>e'. energy (chargeStep m other obj) = Some e' \<and> 0 \<le> e' \<and> e' \<le> m"
proof (cases "\<not> glowing other \<or> obj_id other = obj_id obj
              \<or> \<not> (distance obj other < CHARGING_RADIUS \<and> distance obj other > radius other + radius obj + 5)")
  case True
  then have "chargeStep m other obj = obj" by (auto simp: chargeStep_def Let_def)
  with assms show ?thesis by simp
next
  case False
  then have d: "distance obj other < CHARGING_RADIUS" by blast
  have "0 \<le> 1 - distance obj other / CHARGING_RADIUS"
    using d by (simp add: CHARGING_RADIUS_def)
  then have "0 \<le> or_default (chargingRate other) 1 * (1 - distance obj other / CHARGING_RADIUS) * FRAME_DT"
    using assms(4) by (simp add: FRAME_DT_def)
  then show ?thesis
    using False assms by (auto simp: chargeStep_def Let_def)
qed

lemma foldl_chargeStep_energy_bounds:
  assumes "energy obj = Some e" and "0 \<le> e" and "e \<le> m"
    and "\<forall>other \<in> set os. 0 \<le> or_default (chargingRate other) 1"
  shows "\<exists>e'. energy (foldl (\<lambda>obj other. chargeStep m other obj) obj os) = Some e' \<and> 0 \<le> e' \<and> e' \<le> m"
  using assms
proof (induction os arbitrary: obj e)
  case Nil
  then show ?case by simp
next
  case (Cons other os)
  from Cons.prems obtain e1 where e1: "energy (chargeStep m other obj) = Some e1" "0 \<le> e1" "e1 \<le> m"
    using chargeStep_energy_bounds [of obj e m other] by auto
  from Cons.IH [OF e1] Cons.prems(4) show ?case by simp
qed

text \<open>\<open>updateEnergy\<close> (decay, then charging) keeps the energy in \<open>[0, maxEnergy]\<close>.\<close>

lemma updateEnergy_energy_bounds:
  assumes "i < length objects" and "energy (objects ! i) = Some e" and "maxEnergy (objects ! i) = Some m"
    and "0 \<le> e" and "e \<le> m"
    and "\<forall>other \<in> set objects. 0 \<le> or_default (chargingRate other) 1"
  shows "\<exists>e'. energy (updateEnergy i objects ! i) = Some e' \<and> 0 \<le> e' \<and> e' \<le> m"
proof -
  let ?obj = "(objects ! i)\<lparr>energy := Some (max 0 (e - ENERGY_DECAY_RATE * FRAME_DT))\<rparr>"
  have "energy ?obj = Some (max 0 (e - ENERGY_DECAY_RATE * FRAME_DT))" by simp
  moreover have "0 \<le> max 0 (e - ENERGY_DECAY_RATE * FRAME_DT)" by simp
  moreover have "max 0 (e - ENERGY_DECAY_RATE * FRAME_DT) \<le> m"
    using assms(4,5) by (simp add: ENERGY_DECAY_RATE_def FRAME_DT_def)
  ultimately have "\<exists>e'. energy (foldl (\<lambda>obj other. chargeStep m other obj) ?obj objects) = Some e'
      \<and> 0 \<le> e' \<and> e' \<le> m"
    using assms(6) by (rule foldl_chargeStep_energy_bounds)
  then show ?thesis using assms(1,2,3) by (simp add: updateEnergy_def)
qed

text \<open>The energy transfer of an absorption keeps it too.\<close>

lemma absorb_energy_bounds:
  assumes "energy larger = Some el" and "maxEnergy larger = Some m" and "0 \<le> el" and "el \<le> m"
    and "energy smaller = Some es" and "0 \<le> es"
  shows "\<exists>e'. energy (absorb larger smaller) = Some e' \<and> 0 \<le> e' \<and> e' \<le> m"
  using assms by (auto simp: absorb_def Let_def ENERGY_ABSORPTION_RATE_def)

subsection \<open>The collision pass\<close>

lemma absorb_frame [simp]:
  "obj_id (absorb larger smaller) = obj_id larger"
  "mass (absorb larger smaller) = mass larger + mass smaller * MASS_ABSORPTION_RATE"
  "radius (absorb larger smaller) =
     calculateRadius (mass larger + mass smaller * MASS_ABSORPTION_RATE) (obj_type larger)"
  by (simp_all add: absorb_def Let_def split: option.splits)

lemma teleport_id [simp]: "obj_id (teleport W rnd obj1 obj2) = obj_id obj2"
  by (simp add: teleport_def Let_def split: prod.splits)

lemma map_update_same:
  assumes "f y = f (xs ! i)"
  shows "map f (xs[i := y]) = map f xs"
proof (cases "i < length xs")
  case True
  with assms show ?thesis by (simp add: map_update list_update_same_conv)
next
  case False
  then show ?thesis by (simp add: list_update_beyond not_less)
qed

lemma collidePair_length [simp]: "length (objs (collidePair W rnd i j st)) = length (objs st)"
  by (simp add: collidePair_def Let_def)

lemma collidePair_ids: "map obj_id (objs (collidePair W rnd i j st)) = map obj_id (objs st)"
  by (simp add: collidePair_def Let_def map_update_same)

lemma collidePair_toRemove: "set (toRemove st) \<subseteq> set (toRemove (collidePair W rnd i j st))"
  by (auto simp: collidePair_def Let_def)

lemma collideAll_Nil [simp]: "collideAll W rnd [] st = st"
  by (simp add: collideAll_def)

lemma collideAll_Cons [simp]:
  "collideAll W rnd ((i, j) # ps) st = collideAll W rnd ps (collidePair W (rnd i j) i j st)"
  by (simp add: collideAll_def)

lemma collideAll_append [simp]:
  "collideAll W rnd (ps @ qs) st = collideAll W rnd qs (collideAll W rnd ps st)"
  by (simp add: collideAll_def)

lemma collideAll_ids: "map obj_id (objs (collideAll W rnd ps st)) = map obj_id (objs st)"
proof (induction ps arbitrary: st)
  case Nil
  then show ?case by simp
next
  case (Cons p ps)
  obtain i j where p: "p = (i, j)" by (cases p)
  show ?case using Cons.IH [of "collidePair W (rnd i j) i j st"] by (simp add: p collidePair_ids)
qed

lemma collideAll_toRemove: "set (toRemove st) \<subseteq> set (toRemove (collideAll W rnd ps st))"
proof (induction ps arbitrary: st)
  case Nil
  then show ?case by simp
next
  case (Cons p ps)
  obtain i j where p: "p = (i, j)" by (cases p)
  show ?case
    using Cons.IH [of "collidePair W (rnd i j) i j st"] collidePair_toRemove [of st W "rnd i j" i j]
    by (auto simp: p)
qed

lemma pairIndices_bounds: "(i, j) \<in> set (pairIndices n) \<Longrightarrow> i < j \<and> j < n"
  by (auto simp: pairIndices_def)

text \<open>The default rule: what the pair step does for two bodies in contact that do not glow.\<close>

lemma collidePair_absorb:
  assumes "inContact (objs st ! i) (objs st ! j)"
    and "\<not> glowing (objs st ! i)" and "\<not> glowing (objs st ! j)"
    and "obj_type (objs st ! i) \<noteq> Wormhole \<or> obj_type (objs st ! j) \<noteq> Player"
  shows "collidePair W rnd i j st =
     (let l = (if mass (objs st ! i) > mass (objs st ! j) then i else j);
          s = (if mass (objs st ! i) > mass (objs st ! j) then j else i)
      in st\<lparr>objs := (objs st)[l := absorb (objs st ! l) (objs st ! s)],
            toRemove := toRemove st @ [obj_id (objs st ! s)],
            scoreIncrease := scoreIncrease st +
              (if obj_id (objs st ! l) = ''player''
               then of_int \<lfloor>mass (objs st ! s) * 20\<rfloor> else 0)\<rparr>)"
  using assms by (auto simp: collidePair_def inContact_def Let_def)

text \<open>The target of a teleport, for draws of \<open>Math.random()\<close> in \<open>[0, 1)\<close>.\<close>

lemma teleport_target:
  assumes "filter (\<lambda>w. obj_id w \<noteq> obj_id obj1) W \<noteq> []"
    and "0 \<le> r1" and "r1 < 1" and "0 \<le> r2" and "r2 < 1" and "0 \<le> r3" and "r3 < 1"
  shows "\<exists>w \<in> set W. obj_id w \<noteq> obj_id obj1
           \<and> \<bar>xpos (teleport W (r1, r2, r3) obj1 obj2) - xpos w\<bar> \<le> 50
           \<and> \<bar>ypos (teleport W (r1, r2, r3) obj1 obj2) - ypos w\<bar> \<le> 50
           \<and> vx (teleport W (r1, r2, r3) obj1 obj2) = vx obj2 / 2
           \<and> vy (teleport W (r1, r2, r3) obj1 obj2) = vy obj2 / 2
           \<and> mass (teleport W (r1, r2, r3) obj1 obj2) = mass obj2"
proof -
  define av where "av = filter (\<lambda>w. obj_id w \<noteq> obj_id obj1) W"
  define k where "k = nat \<lfloor>r1 * real (length av)\<rfloor>"
  have len: "0 < length av" using assms(1) by (simp add: av_def)
  have "r1 * real (length av) < real (length av)" using assms(3) len by simp
  then have "\<lfloor>r1 * real (length av)\<rfloor> < int (length av)" by linarith
  then have k: "k < length av" using assms(2) by (simp add: k_def nat_less_iff)
  then have "av ! k \<in> set av" by simp
  then have w: "av ! k \<in> set W" "obj_id (av ! k) \<noteq> obj_id obj1" by (simp_all add: av_def)
  have t: "teleport W (r1, r2, r3) obj1 obj2 =
      obj2\<lparr>xpos := xpos (av ! k) + (r2 - 5 / 10) * 100, ypos := ypos (av ! k) + (r3 - 5 / 10) * 100,
           vx := vx obj2 * (5 / 10), vy := vy obj2 * (5 / 10)\<rparr>"
    using len by (simp add: teleport_def Let_def av_def k_def)
  have "\<bar>(r2 - 5 / 10) * 100\<bar> \<le> 50" "\<bar>(r3 - 5 / 10) * 100\<bar> \<le> 50"
    using assms(4-7) by (simp_all add: abs_le_iff)
  with w t show ?thesis by (intro bexI [of _ "av ! k"]) simp_all
qed

lemma absorb_static [simp]:
  "obj_type (absorb larger smaller) = obj_type larger"
  "isGlowing (absorb larger smaller) = isGlowing larger"
  by (simp_all add: absorb_def Let_def split: option.splits)

lemma teleport_static [simp]:
  "obj_type (teleport W rnd obj1 obj2) = obj_type obj2"
  "isGlowing (teleport W rnd obj1 obj2) = isGlowing obj2"
  by (simp_all add: teleport_def Let_def split: prod.splits)

lemma collidePair_types: "map obj_type (objs (collidePair W rnd i j st)) = map obj_type (objs st)"
  by (simp add: collidePair_def Let_def map_update_same)

lemma collidePair_glow: "map isGlowing (objs (collidePair W rnd i j st)) = map isGlowing (objs st)"
  by (simp add: collidePair_def Let_def map_update_same)

lemma collideAll_map:
  assumes "\<And>i j r st'. map f (objs (collidePair W r i j st')) = map f (objs st')"
  shows "map f (objs (collideAll W rnd ps st)) = map f (objs st)"
proof (induction ps arbitrary: st)
  case Nil
  then show ?case by simp
next
  case (Cons p ps)
  obtain i j where p: "p = (i, j)" by (cases p)
  show ?case using Cons.IH [of "collidePair W (rnd i j) i j st"] by (simp add: p assms)
qed

lemma map_eq_nth:
  assumes "map f xs = map f ys" and "k < length ys"
  shows "f (xs ! k) = f (ys ! k)"
proof -
  have "length xs = length ys" using assms(1) by (metis length_map)
  then have "f (xs ! k) = map f xs ! k" using assms(2) by simp
  also have "\<dots> = f (ys ! k)" using assms by simp
  finally show ?thesis .
qed

lemma collideAll_static_nth:
  assumes "k < length (objs st)"
  shows "obj_id (objs (collideAll W rnd ps st) ! k) = obj_id (objs st ! k)"
    and "obj_type (objs (collideAll W rnd ps st) ! k) = obj_type (objs st ! k)"
    and "glowing (objs (collideAll W rnd ps st) ! k) = glowing (objs st ! k)"
    and "length (objs (collideAll W rnd ps st)) = length (objs st)"
proof -
  show "obj_id (objs (collideAll W rnd ps st) ! k) = obj_id (objs st ! k)"
    by (rule map_eq_nth [OF collideAll_map assms]) (rule collidePair_ids)
  show "obj_type (objs (collideAll W rnd ps st) ! k) = obj_type (objs st ! k)"
    by (rule map_eq_nth [OF collideAll_map assms]) (rule collidePair_types)
  have "isGlowing (objs (collideAll W rnd ps st) ! k) = isGlowing (objs st ! k)"
    by (rule map_eq_nth [OF collideAll_map assms]) (rule collidePair_glow)
  then show "glowing (objs (collideAll W rnd ps st) ! k) = glowing (objs st ! k)"
    by (simp add: glowing_def)
  have "map obj_id (objs (collideAll W rnd ps st)) = map obj_id (objs st)"
    by (rule collideAll_map) (rule collidePair_ids)
  then show "length (objs (collideAll W rnd ps st)) = length (objs st)" by (metis length_map)
qed

lemma collidePair_absorb_fields:
  assumes "inContact (objs st ! i) (objs st ! j)"
    and "\<not> glowing (objs st ! i)" and "\<not> glowing (objs st ! j)"
    and "obj_type (objs st ! i) \<noteq> Wormhole \<or> obj_type (objs st ! j) \<noteq> Player"
    and "l = (if mass (objs st ! i) > mass (objs st ! j) then i else j)"
    and "s = (if mass (objs st ! i) > mass (objs st ! j) then j else i)"
  shows "objs (collidePair W rnd i j st) = (objs st)[l := absorb (objs st ! l) (objs st ! s)]"
    and "toRemove (collidePair W rnd i j st) = toRemove st @ [obj_id (objs st ! s)]"
    and "scoreIncrease (collidePair W rnd i j st) = scoreIncrease st +
              (if obj_id (objs st ! l) = ''player''
               then of_int \<lfloor>mass (objs st ! s) * 20\<rfloor> else 0)"
  unfolding collidePair_absorb [OF assms(1-4)] Let_def assms(5,6) by simp_all

lemma collidePair_teleport:
  assumes "inContact (objs st ! i) (objs st ! j)"
    and "obj_type (objs st ! i) = Wormhole" and "obj_type (objs st ! j) = Player"
  shows "collidePair W rnd i j st =
           st\<lparr>objs := (objs st)[j := teleport W rnd (objs st ! i) (objs st ! j)]\<rparr>"
  using assms by (simp add: collidePair_def inContact_def Let_def)

lemma pairIndices_2: "pairIndices (Suc (Suc 0)) = [(0, Suc 0)]"
  by (simp add: pairIndices_def upt_rec)

lemma pairIndices_3:
  "pairIndices (Suc (Suc (Suc 0))) = [(0, Suc 0), (0, Suc (Suc 0)), (Suc 0, Suc (Suc 0))]"
  by (simp add: pairIndices_def upt_rec)

lemma calculateRadius_Debris_pos: "0 < calculateRadius m Debris"
  by simp

subsection \<open>The AI decision\<close>

lemma accelerateToward_aiState [simp]: "aiState (accelerateToward ai target force) = aiState ai"
  by (simp add: accelerateToward_def Let_def)

lemma fleeFrom_aiState [simp]: "aiState (fleeFrom threat ai) = aiState ai"
  by (simp add: fleeFrom_def Let_def)

lemma foldl_fleeFrom_aiState [simp]:
  "aiState (foldl (\<lambda>a threat. fleeFrom threat a) ai threats) = aiState ai"
  by (induction threats arbitrary: ai) simp_all


lemma glowingObjects_nonempty:
  "glowingObjects ai objects \<noteq> [] \<longleftrightarrow>
     (\<exists>obj \<in> set objects. obj_id obj \<noteq> obj_id ai \<and> distance ai obj < 300 \<and> glowing obj)"
  by (auto simp: glowingObjects_def nearbyObjects_def filter_empty_conv)

lemma largerObjects_nonempty:
  "largerObjects ai objects \<noteq> [] \<longleftrightarrow>
     (\<exists>obj \<in> set objects. obj_id obj \<noteq> obj_id ai \<and> distance ai obj < 300 \<and> mass obj > mass ai)"
  by (auto simp: largerObjects_def nearbyObjects_def filter_empty_conv)

lemma smallerObjects_nonempty:
  "smallerObjects ai objects \<noteq> [] \<longleftrightarrow>
     (\<exists>obj \<in> set objects. obj_id obj \<noteq> obj_id ai \<and> distance ai obj < 300
        \<and> mass obj < mass ai \<and> \<not> glowing obj)"
  by (auto simp: smallerObjects_def nearbyObjects_def filter_empty_conv)

lemma aiGrow_frame [simp]:
  "obj_id (aiGrow ai) = obj_id ai" "xpos (aiGrow ai) = xpos ai" "ypos (aiGrow ai) = ypos ai"
  "energy (aiGrow ai) = energy ai"
  "mass (aiGrow ai) = (if mass ai < AI_MAX_MASS then mass ai + AI_GROWTH_RATE else mass ai)"
  by (simp_all add: aiGrow_def)




lemma fleeFrom_frame [simp]:
  "xpos (fleeFrom threat ai) = xpos ai" "ypos (fleeFrom threat ai) = ypos ai"
  by (simp_all add: fleeFrom_def Let_def)








subsection \<open>The discovery loop\<close>

lemma discoverStep_discovered: "discovered a \<Longrightarrow> discoverStep a st = (a, st)"
  by (simp add: discoverStep_def)

lemma discoverStep_out_of_reach: "\<not> inReach (player st) a \<Longrightarrow> discoverStep a st = (a, st)"
  by (simp add: discoverStep_def)

lemma inReach_cong:
  "xpos q = xpos p \<Longrightarrow> ypos q = ypos p \<Longrightarrow> radius q = radius p \<Longrightarrow> inReach q a = inReach p a"
  by (simp add: inReach_def)

lemma discoverStep_frame:
  "xpos (player (snd (discoverStep a st))) = xpos (player st)"
  "ypos (player (snd (discoverStep a st))) = ypos (player st)"
  "radius (player (snd (discoverStep a st))) = radius (player st)"
  "maxEnergy (player (snd (discoverStep a st))) = maxEnergy (player st)"
  "act_id (fst (discoverStep a st)) = act_id a"
  by (simp_all add: discoverStep_def)

lemma discoverStep_reach: "inReach (player (snd (discoverStep a st))) b = inReach (player st) b"
  by (rule inReach_cong) (simp_all add: discoverStep_frame)

lemma discoverAll_ids: "map act_id (fst (discoverAll as st)) = map act_id as"
proof (induction as arbitrary: st)
  case Nil
  then show ?case by simp
next
  case (Cons a as)
  obtain a' st' where s: "discoverStep a st = (a', st')" by (cases "discoverStep a st")
  obtain as' st'' where r: "discoverAll as st' = (as', st'')" by (cases "discoverAll as st'")
  have "act_id a' = act_id a" using discoverStep_frame(5) [of a st] s by simp
  moreover have "map act_id as' = map act_id as" using Cons.IH [of st'] r by simp
  ultimately show ?case using s r by simp
qed

lemma discoverAll_length [simp]: "length (fst (discoverAll as st)) = length as"
  using discoverAll_ids [of as st] by (metis length_map)

lemma discoverAll_frame:
  "xpos (player (snd (discoverAll as st))) = xpos (player st)
   \<and> ypos (player (snd (discoverAll as st))) = ypos (player st)
   \<and> radius (player (snd (discoverAll as st))) = radius (player st)
   \<and> maxEnergy (player (snd (discoverAll as st))) = maxEnergy (player st)"
proof (induction as arbitrary: st)
  case Nil
  then show ?case by simp
next
  case (Cons a as)
  obtain a' st' where s: "discoverStep a st = (a', st')" by (cases "discoverStep a st")
  obtain as' st'' where r: "discoverAll as st' = (as', st'')" by (cases "discoverAll as st'")
  have "st' = snd (discoverStep a st)" using s by simp
  then have f: "xpos (player st') = xpos (player st)" "ypos (player st') = ypos (player st)"
    "radius (player st') = radius (player st)" "maxEnergy (player st') = maxEnergy (player st)"
    by (simp_all add: discoverStep_frame)
  show ?case using Cons.IH [of st'] s r f by simp
qed

text \<open>The energy after the loop is the old one or \<open>maxEnergy\<close>.\<close>

lemma discoverAll_energy:
  "energy (player (snd (discoverAll as st))) = energy (player st)
   \<or> energy (player (snd (discoverAll as st))) = maxEnergy (player st)"
proof (induction as arbitrary: st)
  case Nil
  then show ?case by simp
next
  case (Cons a as)
  obtain a' st' where s: "discoverStep a st = (a', st')" by (cases "discoverStep a st")
  obtain as' st'' where r: "discoverAll as st' = (as', st'')" by (cases "discoverAll as st'")
  have st': "st' = snd (discoverStep a st)" using s by simp
  have m: "maxEnergy (player st') = maxEnergy (player st)" by (simp add: st' discoverStep_frame)
  have e: "energy (player st') = energy (player st) \<or> energy (player st') = maxEnergy (player st)"
    by (simp add: st' discoverStep_def)
  show ?case using Cons.IH [of st'] s r m e by auto
qed

lemma discoverAll_full:
  "discoverAll as st = (as', st') \<Longrightarrow> energy (player st) = maxEnergy (player st) \<Longrightarrow>
     energy (player st') = maxEnergy (player st)"
  using discoverAll_energy [of as st] by auto

lemma discoverAll_crystal:
  assumes "k < length as" and "act_type (as ! k) = EnergyCrystal" and "\<not> discovered (as ! k)"
    and "inReach (player st) (as ! k)"
  shows "energy (player (snd (discoverAll as st))) = maxEnergy (player st)
       \<and> discovered (fst (discoverAll as st) ! k)"
  using assms
proof (induction as arbitrary: st k)
  case Nil
  then show ?case by simp
next
  case (Cons a as)
  obtain a' st' where s: "discoverStep a st = (a', st')" by (cases "discoverStep a st")
  obtain as' st'' where r: "discoverAll as st' = (as', st'')" by (cases "discoverAll as st'")
  have st': "st' = snd (discoverStep a st)" using s by simp
  have m: "maxEnergy (player st') = maxEnergy (player st)" by (simp add: st' discoverStep_frame)
  show ?case
  proof (cases k)
    case 0
    with Cons.prems s have "energy (player st') = maxEnergy (player st')" "discovered a'"
      by (auto simp: discoverStep_def)
    with discoverAll_full [OF r] m s r 0 show ?thesis by simp
  next
    case (Suc n)
    have "inReach (player st') (as ! n)"
      using Cons.prems(4) Suc by (simp add: st' discoverStep_reach)
    with Cons.IH [of n st'] Cons.prems Suc s r m show ?thesis by simp
  qed
qed

lemma discoverAll_kept:
  assumes "k < length as" and "discovered (as ! k)"
  shows "fst (discoverAll as st) ! k = as ! k"
  using assms
proof (induction as arbitrary: st k)
  case Nil
  then show ?case by simp
next
  case (Cons a as)
  obtain a' st' where s: "discoverStep a st = (a', st')" by (cases "discoverStep a st")
  obtain as' st'' where r: "discoverAll as st' = (as', st'')" by (cases "discoverAll as st'")
  show ?case
  proof (cases k)
    case 0
    with Cons.prems s show ?thesis by (simp add: discoverStep_discovered split: prod.splits)
  next
    case (Suc n)
    with Cons.IH [of n st'] Cons.prems s r show ?thesis by simp
  qed
qed

lemma discoverAll_score:
  "score (snd (discoverAll as st)) =
     score st + (\<Sum>a\<leftarrow>filter (\<lambda>a. inReach (player st) a \<and> \<not> discovered a) as. reward a)"
proof (induction as arbitrary: st)
  case Nil
  then show ?case by simp
next
  case (Cons a as)
  obtain a' st' where s: "discoverStep a st = (a', st')" by (cases "discoverStep a st")
  obtain as' st'' where r: "discoverAll as st' = (as', st'')" by (cases "discoverAll as st'")
  have st': "st' = snd (discoverStep a st)" using s by simp
  have reach: "\<And>b. inReach (player st') b = inReach (player st) b"
    by (simp add: st' discoverStep_reach)
  have sc: "score st' = score st + (if inReach (player st) a \<and> \<not> discovered a then reward a else 0)"
    by (simp add: st' discoverStep_def)
  show ?case using Cons.IH [of st'] s r sc by (simp add: reach)
qed

text \<open>After a pass, every activity in reach is discovered: a second pass from the same
  place changes nothing.\<close>

lemma discoverAll_settled:
  "\<forall>a \<in> set (fst (discoverAll as st)). inReach (player st) a \<longrightarrow> discovered a"
proof (induction as arbitrary: st)
  case Nil
  then show ?case by simp
next
  case (Cons a as)
  obtain a' st' where s: "discoverStep a st = (a', st')" by (cases "discoverStep a st")
  obtain as' st'' where r: "discoverAll as st' = (as', st'')" by (cases "discoverAll as st'")
  have st': "st' = snd (discoverStep a st)" using s by simp
  have reach: "\<And>b. inReach (player st') b = inReach (player st) b"
    by (simp add: st' discoverStep_reach)
  have a': "inReach (player st) a' \<longrightarrow> discovered a'"
    using s by (auto simp: discoverStep_def inReach_def split: if_splits)
  show ?case using Cons.IH [of st'] s r a' by (simp add: reach)
qed

lemma discoverAll_noop:
  "\<forall>a \<in> set as. inReach (player st) a \<longrightarrow> discovered a \<Longrightarrow> discoverAll as st = (as, st)"
  by (induction as) (auto simp: discoverStep_def)

lemma crystal_eval:
  "handleSpaceActivities (Some startPlayer) [crystalAt 10 0] 0 []
     = ([(crystalAt 10 0)\<lparr>discovered := True\<rparr>], Some (startPlayer\<lparr>energy := Some 120\<rparr>), 75,
        [''activity-1''])"
  by (simp add: handleSpaceActivities_def discoverStep_def inReach_def crystalAt_def bodies_defs
      sqrt_100)

subsection \<open>The claims\<close>

text \<open>
  Claim C10.  An AI body whose energy field is 0 or undefined is left untouched by the AI
  update: \<open>updateAI\<close> returns at its first line, so the whole object array, and with it
  every field of that body (mass, radius, aiState, velocity, lastMovementTime), is
  unchanged.
\<close>

theorem updateAI_depleted_unchanged:
  assumes "i < length objects"
    and "energy (objects ! i) = None \<or> energy (objects ! i) = Some 0"
  shows "updateAI now rnd i objects = objects"
  using assms by (auto simp: updateAI_def truthy_def)

theorem updateAI_depleted_unchanged_witness:
  "updateAI 1000 (0, 0, 0) 0 [aiBody 0, body ''debris-1'' Debris 10 0 2 2]
     = [aiBody 0, body ''debris-1'' Debris 10 0 2 2]"
  using updateAI_depleted_unchanged
    [of 0 "[aiBody 0, body ''debris-1'' Debris 10 0 2 2]" 1000 "(0, 0, 0)"]
  by (simp add: aiBody_def body_def)

text \<open>
  Claim C1.  After every energy-affecting operation the energy of a body lies in
  \<open>[0, maxEnergy]\<close>.  The decay and the charging of \<open>updateEnergy\<close> and the transfer of
  an absorption keep the interval (\<open>updateEnergy_energy_bounds\<close>,
  \<open>absorb_energy_bounds\<close>), each through its \<open>Math.max\<close> or \<open>Math.min\<close>.  The cost of
  the gravity-pull ability is subtracted with no clamp: a player with energy 0.01 who holds
  the ability leaves \<open>applyGravity\<close> with energy \<open>-0.038\<close>.
\<close>

theorem pull_cost_negative_energy:
  "energy (applyGravity True (Some 0) 0 [startPlayer\<lparr>energy := Some (1 / 100)\<rparr>] ! 0)
     = Some (- (38 / 1000))"
  by (simp add: applyGravity_def gravityPull_def gravitySum_def gravityTerm_def pullOther_def
      clampVelocity_def Let_def bodies_defs consts_defs)

text \<open>
  Claim C5, as amended.  The speed clamp at the end of \<open>applyGravity\<close> bounds the
  magnitude of the velocity by \<open>MAX_VELOCITY\<close> up to the rounding of the doubles: for
  every rounding that \<open>roundsToDouble\<close> admits and components of at most \<open>2^500\<close>, the
  exact magnitude of the velocity that the clamp stores is at most
  \<open>MAX_VELOCITY * (1 + 2^-49)\<close>; rounding can take it above \<open>MAX_VELOCITY\<close> itself.
  The clamp is uniform: the summed gravity is added to the velocity, and when the
  resulting speed exceeds the maximum both components are divided by that speed and
  multiplied by \<open>MAX_VELOCITY\<close>, which keeps the direction; otherwise the sum is kept.
\<close>

theorem applyGravity_speed_clamped:
  "(roundsToDouble rnd \<and> \<bar>a\<bar> \<le> 2 ^ 500 \<and> \<bar>b\<bar> \<le> 2 ^ 500 \<longrightarrow>
      sqrt (fst (clampRounded rnd (a, b)) * fst (clampRounded rnd (a, b))
            + snd (clampRounded rnd (a, b)) * snd (clampRounded rnd (a, b)))
        \<le> MAX_VELOCITY * (1 + 1 / 2 ^ 49))
   \<and> (i < length objects \<longrightarrow>
        (let f = gravitySum (objects ! i) objects;
             vx1 = vx (objects ! i) + fst f;
             vy1 = vy (objects ! i) + snd f;
             s = sqrt (vx1 * vx1 + vy1 * vy1);
             obj' = applyGravity pullActive playerRef i objects ! i
         in (vx obj', vy obj') = clampRounded (\<lambda>x. x) (vx1, vy1)
            \<and> vx obj' = (if s > MAX_VELOCITY then vx1 / s * MAX_VELOCITY else vx1)
            \<and> vy obj' = (if s > MAX_VELOCITY then vy1 / s * MAX_VELOCITY else vy1)))"
proof (intro conjI impI)
  assume "roundsToDouble rnd \<and> \<bar>a\<bar> \<le> 2 ^ 500 \<and> \<bar>b\<bar> \<le> 2 ^ 500"
  then show "sqrt (fst (clampRounded rnd (a, b)) * fst (clampRounded rnd (a, b))
            + snd (clampRounded rnd (a, b)) * snd (clampRounded rnd (a, b)))
        \<le> MAX_VELOCITY * (1 + 1 / 2 ^ 49)"
    using clampRounded_bound [of rnd a b] by blast
next
  assume i: "i < length objects"
  define objects1 where "objects1 = gravityPull pullActive playerRef i objects"
  define f where "f = gravitySum (objects ! i) objects"
  have app: "applyGravity pullActive playerRef i objects ! i = clampVelocity (objects1 ! i) f"
    using i by (simp add: applyGravity_nth objects1_def f_def)
  have v: "vx (objects1 ! i) = vx (objects ! i)" "vy (objects1 ! i) = vy (objects ! i)"
    using gravityPull_velocity [OF i] by (simp_all add: objects1_def)
  have ex: "(vx (clampVelocity (objects1 ! i) f), vy (clampVelocity (objects1 ! i) f))
      = clampRounded (\<lambda>x. x) (vx (objects ! i) + fst f, vy (objects ! i) + snd f)"
    unfolding clampVelocity_exact by (simp add: v)
  show "let f = gravitySum (objects ! i) objects;
             vx1 = vx (objects ! i) + fst f;
             vy1 = vy (objects ! i) + snd f;
             s = sqrt (vx1 * vx1 + vy1 * vy1);
             obj' = applyGravity pullActive playerRef i objects ! i
         in (vx obj', vy obj') = clampRounded (\<lambda>x. x) (vx1, vy1)
            \<and> vx obj' = (if s > MAX_VELOCITY then vx1 / s * MAX_VELOCITY else vx1)
            \<and> vy obj' = (if s > MAX_VELOCITY then vy1 / s * MAX_VELOCITY else vy1)"
    unfolding Let_def app f_def [symmetric] ex
    using v by (simp add: clampVelocity_def clampRounded_def Let_def)
qed

text \<open>Under \<open>roundUpAtFour\<close> the velocity \<open>(10, 0)\<close> is clamped to \<open>4 + 2^-51\<close>, above the
  maximum and within the bound; in exact arithmetic a player at speed 10 leaves
  \<open>applyGravity\<close> at speed 4, in the same direction.\<close>

theorem applyGravity_speed_clamped_witness:
  "roundsToDouble roundUpAtFour \<and> \<bar>10 :: real\<bar> \<le> 2 ^ 500 \<and> \<bar>0 :: real\<bar> \<le> 2 ^ 500
   \<and> clampRounded roundUpAtFour (10, 0) = (4 + 4 / 2 ^ 53, 0)
   \<and> MAX_VELOCITY < fst (clampRounded roundUpAtFour (10, 0))
   \<and> sqrt (fst (clampRounded roundUpAtFour (10, 0)) * fst (clampRounded roundUpAtFour (10, 0))
            + snd (clampRounded roundUpAtFour (10, 0)) * snd (clampRounded roundUpAtFour (10, 0)))
        \<le> MAX_VELOCITY * (1 + 1 / 2 ^ 49)
   \<and> (0::nat) < length [startPlayer\<lparr>vx := 10\<rparr>]
   \<and> vx (applyGravity False None 0 [startPlayer\<lparr>vx := 10\<rparr>] ! 0) = 4
   \<and> vy (applyGravity False None 0 [startPlayer\<lparr>vx := 10\<rparr>] ! 0) = 0"
proof -
  have r: "roundsToDouble roundUpAtFour" by (rule roundsToDouble_roundUpAtFour)
  have m: "\<bar>10 :: real\<bar> \<le> 2 ^ 500" "\<bar>0 :: real\<bar> \<le> 2 ^ 500" by simp_all
  have c: "clampRounded roundUpAtFour (10, 0) = (4 + 4 / 2 ^ 53, 0)"
    by (simp add: clampRounded_def roundUpAtFour_def Let_def MAX_VELOCITY_def sqrt_100)
  have bnd: "sqrt (fst (clampRounded roundUpAtFour (10, 0)) * fst (clampRounded roundUpAtFour (10, 0))
            + snd (clampRounded roundUpAtFour (10, 0)) * snd (clampRounded roundUpAtFour (10, 0)))
        \<le> MAX_VELOCITY * (1 + 1 / 2 ^ 49)"
    using applyGravity_speed_clamped [of roundUpAtFour 10 0] r m by blast
  have g: "vx (applyGravity False None 0 [startPlayer\<lparr>vx := 10\<rparr>] ! 0) = 4
      \<and> vy (applyGravity False None 0 [startPlayer\<lparr>vx := 10\<rparr>] ! 0) = 0"
    using applyGravity_speed_clamped [of _ _ _ 0 "[startPlayer\<lparr>vx := 10\<rparr>]" False None]
    by (simp add: Let_def gravitySum_def gravityTerm_def bodies_defs consts_defs sqrt_100)
  have over: "MAX_VELOCITY < fst (clampRounded roundUpAtFour (10, 0))"
    by (simp add: c MAX_VELOCITY_def)
  from r m c over bnd g show ?thesis by simp
qed

text \<open>The claim as stated fails at the orbital nudge of \<open>handleOrbitalMechanics\<close>, which
  runs after the clamp: a player at speed 4 beside a star leaves it at speed 4.02.\<close>

theorem orbital_nudge_exceeds_max_velocity:
  "speed (startPlayer\<lparr>vx := 4\<rparr>) \<le> MAX_VELOCITY
   \<and> \<not> speed (handleOrbitalMechanics {} 0 [startPlayer\<lparr>vx := 4\<rparr>, starAt 0 (- 40)] ! 0)
         \<le> MAX_VELOCITY"
  by (simp add: speed_def handleOrbitalMechanics_def orbitalStep_def riskUpdate_def playerMoving_def
      glowing_def or_default_def Let_def bodies_defs consts_defs sqrt_1600 sqrt_le_iff_sq)

text \<open>
  Claim C6.  For a target \<open>obj\<close> and another body \<open>other\<close> (another id) at distance
  \<open>d > 0\<close>, the contribution to the force is \<open>GRAVITY_CONSTANT * other.mass / d\<^sup>2\<close>
  along the unit vector from \<open>obj\<close> to \<open>other\<close>, times 1.3 exactly when \<open>other\<close> glows.
  At distance 0 the contribution is nothing, and the force that \<open>applyGravity\<close> adds is
  the sum of the contributions of all bodies of the array, so that a coincident body
  takes nothing away from the others.
\<close>

theorem gravity_contribution:
  "(obj_id other \<noteq> obj_id obj \<and> distance obj other > 0 \<longrightarrow>
      gravityTerm obj other =
        (let d = distance obj other;
             force = GRAVITY_CONSTANT * mass other / d\<^sup>2 * (if glowing other then 13 / 10 else 1)
         in ((xpos other - xpos obj) / d * force, (ypos other - ypos obj) / d * force)))
   \<and> (distance obj other = 0 \<longrightarrow> gravityTerm obj other = (0, 0))
   \<and> gravitySum obj objects =
        (\<Sum>other\<leftarrow>objects. fst (gravityTerm obj other), \<Sum>other\<leftarrow>objects. snd (gravityTerm obj other))"
  using gravityTerm_far [of other obj] gravityTerm_zero [of obj other] gravitySum_sum [of obj objects]
  by blast

text \<open>The start player 40 away from a star of mass 100 is drawn by
  \<open>1.5 * 100 / 1600 * 1.3 = 39 / 320\<close>.\<close>

theorem gravity_contribution_witness:
  "obj_id (starAt 40 0) \<noteq> obj_id startPlayer \<and> distance startPlayer (starAt 40 0) > 0
   \<and> gravityTerm startPlayer (starAt 40 0) = (39 / 320, 0)"
  using gravity_contribution [of "starAt 40 0" startPlayer "[]"]
  by (simp add: distance_def glowing_def Let_def bodies_defs consts_defs sqrt_1600)

text \<open>
  Claim C7.  A glowing body that is no wormhole is exempt from the gravity step of the
  frame: the step leaves the whole array as it is, and over the complete per-body step
  its velocity changes by the damping factor alone (for a body that is neither the player
  nor an AI, whose velocities have other writers).  A wormhole and a body that does not
  glow get \<open>applyGravity\<close>: their velocity becomes the clamped sum of the old velocity
  and the summed force.
\<close>

theorem gravityPhase_exemption:
  "(glowing (objects ! i) \<and> obj_type (objects ! i) \<noteq> Wormhole \<longrightarrow>
      gravityPhase pullActive playerRef i objects = objects
      \<and> (i < length objects \<and> obj_type (objects ! i) \<noteq> Ai \<and> obj_type (objects ! i) \<noteq> Player \<longrightarrow>
           vx (bodyStep keys now rnd pullActive playerRef i objects ! i) = vx (objects ! i) * (998 / 1000)
           \<and> vy (bodyStep keys now rnd pullActive playerRef i objects ! i) = vy (objects ! i) * (998 / 1000)))
   \<and> (\<not> glowing (objects ! i) \<or> obj_type (objects ! i) = Wormhole \<longrightarrow>
      gravityPhase pullActive playerRef i objects = applyGravity pullActive playerRef i objects
      \<and> (i < length objects \<longrightarrow>
           gravityPhase pullActive playerRef i objects ! i =
             clampVelocity (gravityPull pullActive playerRef i objects ! i)
               (gravitySum (objects ! i) objects)))"
  using bodyStep_exempt_velocity [of i objects keys now rnd pullActive playerRef]
    applyGravity_nth [of i objects pullActive playerRef]
  by (simp add: gravityPhase_def)

text \<open>Beside the start player a star stays as it is, while the player and a wormhole
  are accelerated.\<close>

theorem gravityPhase_exemption_witness:
  "gravityPhase False None 1 [startPlayer, starAt 40 0] = [startPlayer, starAt 40 0]
   \<and> vx (bodyStep {} 0 (0, 0, 0) False None 1 [startPlayer, starAt 40 0] ! 1) = 0
   \<and> vx (gravityPhase False None 0 [startPlayer, starAt 40 0] ! 0) = 39 / 320
   \<and> vx (gravityPhase False None 1 [startPlayer\<lparr>mass := 16\<rparr>, wormholeAt ''wormhole-1'' 40 0] ! 1)
       = - (3 / 200)"
proof -
  have star: "gravityPhase False None 1 [startPlayer, starAt 40 0] = [startPlayer, starAt 40 0]"
    "vx (bodyStep {} 0 (0, 0, 0) False None 1 [startPlayer, starAt 40 0] ! 1) = 0"
    using gravityPhase_exemption [of "[startPlayer, starAt 40 0]" 1 False None "{}" 0 "(0, 0, 0)"]
    by (simp_all add: glowing_def bodies_defs)
  have pl: "vx (gravityPhase False None 0 [startPlayer, starAt 40 0] ! 0) = 39 / 320"
    using gravityPhase_exemption [of "[startPlayer, starAt 40 0]" 0 False None "{}" 0 "(0, 0, 0)"]
    by (simp add: glowing_def applyGravity_def gravityPull_def gravitySum_def gravityTerm_def
        clampVelocity_def Let_def bodies_defs consts_defs sqrt_1600 sqrt_less_iff_sq sq_less_sqrt_iff)
  have wh: "vx (gravityPhase False None 1
                  [startPlayer\<lparr>mass := 16\<rparr>, wormholeAt ''wormhole-1'' 40 0] ! 1) = - (3 / 200)"
    using gravityPhase_exemption [of "[startPlayer\<lparr>mass := 16\<rparr>, wormholeAt ''wormhole-1'' 40 0]" 1
        False None "{}" 0 "(0, 0, 0)"]
    by (simp add: glowing_def applyGravity_def gravityPull_def gravitySum_def gravityTerm_def
        clampVelocity_def Let_def bodies_defs consts_defs sqrt_1600 sqrt_less_iff_sq sq_less_sqrt_iff)
  from star pl wh show ?thesis by blast
qed

text \<open>
  Claim C2, as amended.  The orbital-risk step itself sets the energy of the player to 0
  as soon as the accumulated risk exceeds 1 while the player stands still in the band of a
  glowing body: no contact is needed.  Besides, a contact of the player, with risk above
  1, with a glowing body sets the energy of the player to exactly 0 and changes nothing
  else: no mass, no removal, no score.  (When the glowing body is a wormhole that comes
  before the player in the array, the wormhole rule takes the pair instead.)
\<close>

theorem fatal_contact:
  "(\<not> moving \<and> glowing g \<and> obj_id g \<noteq> obj_id obj \<and> distance obj g < radius g + radius obj + 50
      \<and> or_default (absorptionProgress obj) 0 + ORBITAL_ABSORPTION_RATE > 1
      \<longrightarrow> energy (orbitalStep moving g obj) = Some 0)
   \<and> (inContact (objs st ! i) (objs st ! j) \<and> glowing (objs st ! i)
      \<and> obj_type (objs st ! i) \<noteq> Wormhole \<and> obj_type (objs st ! j) = Player
      \<and> or_default (absorptionProgress (objs st ! j)) 0 > 1
      \<longrightarrow> collidePair W rnd i j st = st\<lparr>objs := (objs st)[j := (objs st ! j)\<lparr>energy := Some 0\<rparr>]\<rparr>)
   \<and> (inContact (objs st ! i) (objs st ! j) \<and> \<not> glowing (objs st ! i)
      \<and> obj_type (objs st ! i) = Player \<and> glowing (objs st ! j)
      \<and> or_default (absorptionProgress (objs st ! i)) 0 > 1
      \<longrightarrow> collidePair W rnd i j st = st\<lparr>objs := (objs st)[i := (objs st ! i)\<lparr>energy := Some 0\<rparr>]\<rparr>)"
proof (intro conjI impI)
  assume "\<not> moving \<and> glowing g \<and> obj_id g \<noteq> obj_id obj \<and> distance obj g < radius g + radius obj + 50
      \<and> or_default (absorptionProgress obj) 0 + ORBITAL_ABSORPTION_RATE > 1"
  then show "energy (orbitalStep moving g obj) = Some 0"
    by (simp add: orbitalStep_def riskUpdate_def distance_def Let_def)
next
  assume "inContact (objs st ! i) (objs st ! j) \<and> glowing (objs st ! i)
      \<and> obj_type (objs st ! i) \<noteq> Wormhole \<and> obj_type (objs st ! j) = Player
      \<and> or_default (absorptionProgress (objs st ! j)) 0 > 1"
  then show "collidePair W rnd i j st = st\<lparr>objs := (objs st)[j := (objs st ! j)\<lparr>energy := Some 0\<rparr>]\<rparr>"
    by (simp add: collidePair_def inContact_def Let_def)
next
  assume "inContact (objs st ! i) (objs st ! j) \<and> \<not> glowing (objs st ! i)
      \<and> obj_type (objs st ! i) = Player \<and> glowing (objs st ! j)
      \<and> or_default (absorptionProgress (objs st ! i)) 0 > 1"
  then show "collidePair W rnd i j st = st\<lparr>objs := (objs st)[i := (objs st ! i)\<lparr>energy := Some 0\<rparr>]\<rparr>"
    by (simp add: collidePair_def inContact_def Let_def)
qed

theorem fatal_contact_witness:
  "energy (orbitalStep False (starAt 40 0) (startPlayer\<lparr>absorptionProgress := Some (9995 / 10000)\<rparr>))
     = Some 0
   \<and> collidePair [] (0, 0, 0) 0 1
        \<lparr>objs = [starAt 0 0, startPlayer\<lparr>absorptionProgress := Some (12 / 10)\<rparr>],
         toRemove = [], scoreIncrease = 0\<rparr>
      = \<lparr>objs = [starAt 0 0, startPlayer\<lparr>absorptionProgress := Some (12 / 10), energy := Some 0\<rparr>],
         toRemove = [], scoreIncrease = 0\<rparr>
   \<and> collidePair [] (0, 0, 0) 0 1
        \<lparr>objs = [startPlayer\<lparr>absorptionProgress := Some (12 / 10)\<rparr>, starAt 0 0],
         toRemove = [], scoreIncrease = 0\<rparr>
      = \<lparr>objs = [startPlayer\<lparr>absorptionProgress := Some (12 / 10), energy := Some 0\<rparr>, starAt 0 0],
         toRemove = [], scoreIncrease = 0\<rparr>"
proof -
  have a: "energy (orbitalStep False (starAt 40 0)
             (startPlayer\<lparr>absorptionProgress := Some (9995 / 10000)\<rparr>)) = Some 0"
    using fatal_contact [of False "starAt 40 0" "startPlayer\<lparr>absorptionProgress := Some (9995 / 10000)\<rparr>"]
    by (simp add: glowing_def distance_def or_default_def bodies_defs consts_defs sqrt_1600)
  have b: "collidePair [] (0, 0, 0) 0 1
        \<lparr>objs = [starAt 0 0, startPlayer\<lparr>absorptionProgress := Some (12 / 10)\<rparr>],
         toRemove = [], scoreIncrease = 0\<rparr>
      = \<lparr>objs = [starAt 0 0, startPlayer\<lparr>absorptionProgress := Some (12 / 10), energy := Some 0\<rparr>],
         toRemove = [], scoreIncrease = 0\<rparr>"
    using fatal_contact [of _ _ _ "\<lparr>objs = [starAt 0 0, startPlayer\<lparr>absorptionProgress := Some (12 / 10)\<rparr>],
         toRemove = [], scoreIncrease = 0\<rparr>" 0 1 "[]" "(0, 0, 0)"]
    by (simp add: inContact_def glowing_def distance_def or_default_def bodies_defs)
  have c: "collidePair [] (0, 0, 0) 0 1
        \<lparr>objs = [startPlayer\<lparr>absorptionProgress := Some (12 / 10)\<rparr>, starAt 0 0],
         toRemove = [], scoreIncrease = 0\<rparr>
      = \<lparr>objs = [startPlayer\<lparr>absorptionProgress := Some (12 / 10), energy := Some 0\<rparr>, starAt 0 0],
         toRemove = [], scoreIncrease = 0\<rparr>"
    using fatal_contact [of _ _ _ "\<lparr>objs = [startPlayer\<lparr>absorptionProgress := Some (12 / 10)\<rparr>, starAt 0 0],
         toRemove = [], scoreIncrease = 0\<rparr>" 0 1 "[]" "(0, 0, 0)"]
    by (simp add: inContact_def glowing_def distance_def or_default_def bodies_defs)
  from a b c show ?thesis by blast
qed

text \<open>The claim as stated fails: 40 away from a star, out of contact, a resting player
  whose risk passes 1 loses all energy in \<open>handleOrbitalMechanics\<close>.\<close>

theorem risk_alone_zeroes_energy:
  "\<not> inContact (startPlayer\<lparr>absorptionProgress := Some (9995 / 10000)\<rparr>) (starAt 40 0)
   \<and> energy (startPlayer\<lparr>absorptionProgress := Some (9995 / 10000)\<rparr>) = Some 80
   \<and> energy (handleOrbitalMechanics {} 0
               [startPlayer\<lparr>absorptionProgress := Some (9995 / 10000)\<rparr>, starAt 40 0] ! 0)
       = Some 0"
  by (simp add: inContact_def distance_def handleOrbitalMechanics_def orbitalStep_def riskUpdate_def
      playerMoving_def glowing_def or_default_def Let_def bodies_defs consts_defs sqrt_1600)

text \<open>
  Claim C3, as amended.  Let the pass reach the pair \<open>(i, j)\<close> in the state \<open>st\<close>, with
  the two bodies in contact there, neither glowing (and not a wormhole before the
  player).  Then the heavier of the two, by the masses in \<open>st\<close>, gets 0.8 times the mass
  of the other and its radius is recomputed; the score grows by \<open>floor (mass * 20)\<close> of
  the absorbed body when the absorber has the id \<open>player\<close>; the id of the absorbed body is
  in the removal list at the end of the pass, and no body with that id survives the
  removal.  Nothing is asked of the removal list of \<open>st\<close>: a pair is evaluated whether or
  not one of its ids is already scheduled.
\<close>

theorem pair_absorption:
  assumes "pairIndices (length objects) = ps1 @ (i, j) # ps2"
    and "st = collideAll W rnd ps1 \<lparr>objs = objects, toRemove = [], scoreIncrease = 0\<rparr>"
    and "inContact (objs st ! i) (objs st ! j)"
    and "\<not> glowing (objects ! i)" and "\<not> glowing (objects ! j)"
    and "obj_type (objects ! i) \<noteq> Wormhole \<or> obj_type (objects ! j) \<noteq> Player"
    and "l = (if mass (objs st ! i) > mass (objs st ! j) then i else j)"
    and "s = (if mass (objs st ! i) > mass (objs st ! j) then j else i)"
  shows "mass (objs (collidePair W (rnd i j) i j st) ! l)
           = mass (objs st ! l) + mass (objs st ! s) * (8 / 10)
       \<and> radius (objs (collidePair W (rnd i j) i j st) ! l)
           = calculateRadius (mass (objs st ! l) + mass (objs st ! s) * (8 / 10)) (obj_type (objects ! l))
       \<and> scoreIncrease (collidePair W (rnd i j) i j st)
           = scoreIncrease st + (if obj_id (objects ! l) = ''player''
                                 then of_int \<lfloor>mass (objs st ! s) * 20\<rfloor> else 0)
       \<and> obj_id (objects ! s) \<in> set (toRemove (handleCollisions W rnd objects))
       \<and> (\<forall>obj \<in> set (removeAbsorbed (handleCollisions W rnd objects)).
             obj_id obj \<noteq> obj_id (objects ! s))"
proof -
  let ?init = "\<lparr>objs = objects, toRemove = [], scoreIncrease = 0\<rparr>"
  let ?st1 = "collidePair W (rnd i j) i j st"
  have "(i, j) \<in> set (pairIndices (length objects))" using assms(1) by simp
  then have ij: "i < j" "j < length objects" using pairIndices_bounds by blast+
  then have i: "i < length (objs ?init)" and j: "j < length (objs ?init)" by simp_all
  have si: "obj_id (objs st ! i) = obj_id (objects ! i)" "obj_type (objs st ! i) = obj_type (objects ! i)"
       "glowing (objs st ! i) = glowing (objects ! i)" "length (objs st) = length objects"
    using collideAll_static_nth [OF i, of W rnd ps1] assms(2) by simp_all
  have sj: "obj_id (objs st ! j) = obj_id (objects ! j)" "obj_type (objs st ! j) = obj_type (objects ! j)"
       "glowing (objs st ! j) = glowing (objects ! j)"
    using collideAll_static_nth [OF j, of W rnd ps1] assms(2) by simp_all
  have l: "l < length (objs st)" using ij si(4) assms(7) by simp
  have ls: "obj_id (objs st ! l) = obj_id (objects ! l)" "obj_type (objs st ! l) = obj_type (objects ! l)"
       "obj_id (objs st ! s) = obj_id (objects ! s)"
    using si sj assms(7,8) by (simp_all split: if_splits)
  have c: "inContact (objs st ! i) (objs st ! j)" "\<not> glowing (objs st ! i)" "\<not> glowing (objs st ! j)"
    "obj_type (objs st ! i) \<noteq> Wormhole \<or> obj_type (objs st ! j) \<noteq> Player"
    using assms(3-6) si sj by simp_all
  note step = collidePair_absorb_fields [OF c assms(7,8), of W "rnd i j"]
  have final: "handleCollisions W rnd objects = collideAll W rnd ps2 ?st1"
    by (simp add: handleCollisions_def assms(1,2))
  have "obj_id (objects ! s) \<in> set (toRemove ?st1)" by (simp add: step(2) ls)
  then have rem: "obj_id (objects ! s) \<in> set (toRemove (handleCollisions W rnd objects))"
    using collideAll_toRemove [of ?st1 W rnd ps2] final by auto
  then have gone: "\<forall>obj \<in> set (removeAbsorbed (handleCollisions W rnd objects)).
             obj_id obj \<noteq> obj_id (objects ! s)"
    by (auto simp: removeAbsorbed_def)
  have m: "mass (objs ?st1 ! l) = mass (objs st ! l) + mass (objs st ! s) * (8 / 10)"
    using l by (simp add: step(1) MASS_ABSORPTION_RATE_def)
  have r: "radius (objs ?st1 ! l)
      = calculateRadius (mass (objs st ! l) + mass (objs st ! s) * (8 / 10)) (obj_type (objects ! l))"
    using l by (simp add: step(1) MASS_ABSORPTION_RATE_def ls(2))
  have sc: "scoreIncrease ?st1 = scoreIncrease st + (if obj_id (objects ! l) = ''player''
                                 then of_int \<lfloor>mass (objs st ! s) * 20\<rfloor> else 0)"
    by (simp add: step(3) ls(1))
  from m r sc rem gone show ?thesis by blast
qed

text \<open>Masses 10 and 2: the player ends at 11.6 with 40 more points, the debris is
  removed.\<close>

theorem pair_absorption_witness:
  "mass (objs (collidePair [] (0, 0, 0) 0 1
           \<lparr>objs = [startPlayer\<lparr>mass := 10\<rparr>, body ''debris-1'' Debris 0 0 2 2],
             toRemove = [], scoreIncrease = 0\<rparr>) ! 0) = 116 / 10
   \<and> scoreIncrease (collidePair [] (0, 0, 0) 0 1
           \<lparr>objs = [startPlayer\<lparr>mass := 10\<rparr>, body ''debris-1'' Debris 0 0 2 2],
             toRemove = [], scoreIncrease = 0\<rparr>) = 40
   \<and> ''debris-1'' \<in> set (toRemove (handleCollisions [] (\<lambda>i j. (0, 0, 0))
           [startPlayer\<lparr>mass := 10\<rparr>, body ''debris-1'' Debris 0 0 2 2]))
   \<and> ''debris-1'' \<notin> obj_id ` set (removeAbsorbed (handleCollisions [] (\<lambda>i j. (0, 0, 0))
           [startPlayer\<lparr>mass := 10\<rparr>, body ''debris-1'' Debris 0 0 2 2]))"
proof -
  let ?objects = "[startPlayer\<lparr>mass := 10\<rparr>, body ''debris-1'' Debris 0 0 2 2]"
  let ?init = "\<lparr>objs = ?objects, toRemove = [], scoreIncrease = 0\<rparr>"
  have h1: "pairIndices (length ?objects) = [] @ (0, 1) # []" by (simp add: pairIndices_2)
  have h2: "?init = collideAll [] (\<lambda>i j. (0, 0, 0)) [] ?init" by simp
  have h3: "inContact (objs ?init ! 0) (objs ?init ! 1)"
    by (simp add: inContact_def distance_def bodies_defs)
  have h4: "\<not> glowing (?objects ! 0)" and h5: "\<not> glowing (?objects ! 1)"
    by (simp_all add: glowing_def bodies_defs)
  have h6: "obj_type (?objects ! 0) \<noteq> Wormhole \<or> obj_type (?objects ! 1) \<noteq> Player"
    by (simp add: bodies_defs)
  have h7: "0 = (if mass (objs ?init ! 0) > mass (objs ?init ! 1) then 0 else (1::nat))"
    and h8: "1 = (if mass (objs ?init ! 0) > mass (objs ?init ! 1) then 1 else (0::nat))"
    by (simp_all add: bodies_defs)
  from pair_absorption [OF h1 h2 h3 h4 h5 h6 h7 h8]
  show ?thesis by (auto simp: bodies_defs)
qed

text \<open>The claim as stated fails in its last part.  In \<open>ghostObjects\<close> the pair
  \<open>(0, 1)\<close> schedules \<open>debris-b\<close>; the pair \<open>(0, 2)\<close> is evaluated all the same:
  \<open>debris-c\<close> absorbs \<open>debris-b\<close> a second time (mass 5 to 6.6), the id is scheduled
  twice, and \<open>debris-a\<close> ends at 16.88 instead of 15.6.\<close>

theorem scheduled_body_absorbed_again:
  "toRemove (handleCollisions [] (\<lambda>i j. (0, 0, 0)) ghostObjects) = [''debris-b'', ''debris-b'', ''debris-c'']
   \<and> map mass (objs (handleCollisions [] (\<lambda>i j. (0, 0, 0)) ghostObjects)) = [2, 1688 / 100, 66 / 10]"
  using calculateRadius_Debris_pos [of "58 / 5"] calculateRadius_Debris_pos [of "33 / 5"]
  by (simp add: handleCollisions_def pairIndices_3 ghostObjects_def collidePair_def distance_def
      absorb_def glowing_def Let_def body_def consts_defs del: calculateRadius.simps)

text \<open>
  Claim C4.  A player in contact with a wormhole, with another wormhole in existence, is
  teleported next to another wormhole at half the velocity.  The code does so only when
  the wormhole comes before the player in the array (\<open>obj1.type === "wormhole" &&
  obj2.type === "player"\<close>): see \<open>collidePair_teleport\<close> and \<open>teleport_target\<close>.
  With the player first, as \<open>initGame\<close> builds the array, the pass changes nothing.
\<close>

theorem wormhole_after_player_no_teleport:
  "handleCollisions [wormholeAt ''wormhole-1'' 0 0, wormholeAt ''wormhole-2'' 500 500] (\<lambda>i j. (0, 0, 0))
     [startPlayer\<lparr>vx := 2\<rparr>, wormholeAt ''wormhole-1'' 0 0]
   = \<lparr>objs = [startPlayer\<lparr>vx := 2\<rparr>, wormholeAt ''wormhole-1'' 0 0], toRemove = [], scoreIncrease = 0\<rparr>"
  by (simp add: handleCollisions_def pairIndices_2 collidePair_def distance_def
      absorb_def glowing_def or_default_def Let_def bodies_defs consts_defs del: calculateRadius.simps)

text \<open>The same two bodies in the other order.\<close>

lemma wormhole_before_player_teleports:
  "objs (handleCollisions [wormholeAt ''wormhole-1'' 0 0, wormholeAt ''wormhole-2'' 500 500]
     (\<lambda>i j. (0, 1 / 2, 1 / 2))
     [wormholeAt ''wormhole-1'' 0 0, startPlayer\<lparr>vx := 2\<rparr>]) ! 1
   = startPlayer\<lparr>xpos := 500, ypos := 500, vx := 1\<rparr>"
  by (simp add: handleCollisions_def pairIndices_2 collidePair_def distance_def teleport_def
      absorb_def glowing_def or_default_def Let_def bodies_defs consts_defs del: calculateRadius.simps)




text \<open>
  Claim C9.  In a pass of \<open>handleSpaceActivities\<close> an energy crystal that is in reach
  of the player and not yet discovered sets the energy of the player to \<open>maxEnergy\<close>
  and becomes discovered; the score grows by the rewards of the activities discovered
  in the pass, each counted once; a discovered activity is left as it is; no activity is
  removed; and a later pass from the same place changes nothing at all.
\<close>

theorem energyCrystal_discovery:
  assumes "handleSpaceActivities (Some p) activities sc disc = (activities', p', sc', disc')"
    and "k < length activities" and "act_type (activities ! k) = EnergyCrystal"
  shows "map act_id activities' = map act_id activities
       \<and> (\<not> discovered (activities ! k) \<and> inReach p (activities ! k) \<longrightarrow>
            (\<exists>q. p' = Some q \<and> energy q = maxEnergy p \<and> maxEnergy q = maxEnergy p)
            \<and> discovered (activities' ! k))
       \<and> (discovered (activities ! k) \<longrightarrow> activities' ! k = activities ! k)
       \<and> sc' = sc + (\<Sum>a\<leftarrow>filter (\<lambda>a. inReach p a \<and> \<not> discovered a) activities. reward a)
       \<and> (\<forall>q s d. xpos q = xpos p \<and> ypos q = ypos p \<and> radius q = radius p \<longrightarrow>
            handleSpaceActivities (Some q) activities' s d = (activities', Some q, s, d))"
proof -
  let ?st = "\<lparr>player = p, score = sc, discoveredActivities = disc\<rparr>"
  obtain as' st' where r: "discoverAll activities ?st = (as', st')"
    by (cases "discoverAll activities ?st")
  from assms(1) r have out: "activities' = as'" "p' = Some (player st')" "sc' = score st'"
    by (simp_all add: handleSpaceActivities_def)
  have as': "as' = fst (discoverAll activities ?st)" and st': "st' = snd (discoverAll activities ?st)"
    using r by simp_all
  have ids: "map act_id activities' = map act_id activities"
    by (simp add: out as' discoverAll_ids)
  have first: "\<not> discovered (activities ! k) \<and> inReach p (activities ! k) \<longrightarrow>
            (\<exists>q. p' = Some q \<and> energy q = maxEnergy p \<and> maxEnergy q = maxEnergy p)
            \<and> discovered (activities' ! k)"
    using discoverAll_crystal [OF assms(2,3), of ?st] discoverAll_frame [of activities ?st]
    by (simp add: out as' st')
  have kept: "discovered (activities ! k) \<longrightarrow> activities' ! k = activities ! k"
    using discoverAll_kept [OF assms(2), of ?st] by (simp add: out as')
  have score: "sc' = sc + (\<Sum>a\<leftarrow>filter (\<lambda>a. inReach p a \<and> \<not> discovered a) activities. reward a)"
    using discoverAll_score [of activities ?st] by (simp add: out st')
  have settled: "\<forall>a \<in> set activities'. inReach p a \<longrightarrow> discovered a"
    using discoverAll_settled [of activities ?st] by (simp add: out as')
  have again: "\<forall>q s d. xpos q = xpos p \<and> ypos q = ypos p \<and> radius q = radius p \<longrightarrow>
            handleSpaceActivities (Some q) activities' s d = (activities', Some q, s, d)"
  proof (intro allI impI)
    fix q :: GameObject and s :: real and d :: "string list"
    assume q: "xpos q = xpos p \<and> ypos q = ypos p \<and> radius q = radius p"
    let ?sq = "\<lparr>player = q, score = s, discoveredActivities = d\<rparr>"
    have "\<forall>a \<in> set activities'. inReach (player ?sq) a \<longrightarrow> discovered a"
      using settled q inReach_cong [of q p] by simp
    then have "discoverAll activities' ?sq = (activities', ?sq)" by (rule discoverAll_noop)
    then show "handleSpaceActivities (Some q) activities' s d = (activities', Some q, s, d)"
      by (simp add: handleSpaceActivities_def)
  qed
  from ids first kept score again show ?thesis by blast
qed

text \<open>The start player 10 away from a crystal: energy 80 becomes 120 and the score 75;
  touching it again at energy 100 changes nothing.\<close>

theorem energyCrystal_discovery_witness:
  "handleSpaceActivities (Some startPlayer) [crystalAt 10 0] 0 []
     = ([(crystalAt 10 0)\<lparr>discovered := True\<rparr>], Some (startPlayer\<lparr>energy := Some 120\<rparr>), 75,
        [''activity-1''])
   \<and> (0::nat) < length [crystalAt 10 0] \<and> act_type ([crystalAt 10 0] ! 0) = EnergyCrystal
   \<and> \<not> discovered ([crystalAt 10 0] ! 0) \<and> inReach startPlayer ([crystalAt 10 0] ! 0)
   \<and> energy (startPlayer\<lparr>energy := Some 120\<rparr>) = maxEnergy startPlayer
   \<and> discovered ([(crystalAt 10 0)\<lparr>discovered := True\<rparr>] ! 0)
   \<and> handleSpaceActivities (Some (startPlayer\<lparr>energy := Some 100\<rparr>))
        [(crystalAt 10 0)\<lparr>discovered := True\<rparr>] 75 [''activity-1'']
      = ([(crystalAt 10 0)\<lparr>discovered := True\<rparr>], Some (startPlayer\<lparr>energy := Some 100\<rparr>), 75,
         [''activity-1''])"
proof -
  have k: "(0::nat) < length [crystalAt 10 0]" and t: "act_type ([crystalAt 10 0] ! 0) = EnergyCrystal"
    by (simp_all add: crystalAt_def)
  have r: "inReach startPlayer ([crystalAt 10 0] ! 0)" "\<not> discovered ([crystalAt 10 0] ! 0)"
    by (simp_all add: inReach_def crystalAt_def bodies_defs sqrt_100)
  note d = energyCrystal_discovery [OF crystal_eval k t]
  from d have again: "handleSpaceActivities (Some (startPlayer\<lparr>energy := Some 100\<rparr>))
        [(crystalAt 10 0)\<lparr>discovered := True\<rparr>] 75 [''activity-1'']
      = ([(crystalAt 10 0)\<lparr>discovered := True\<rparr>], Some (startPlayer\<lparr>energy := Some 100\<rparr>), 75,
         [''activity-1''])"
    by simp
  from d r have "energy (startPlayer\<lparr>energy := Some 120\<rparr>) = maxEnergy startPlayer
      \<and> discovered ([(crystalAt 10 0)\<lparr>discovered := True\<rparr>] ! 0)"
    by simp
  with crystal_eval k t r again show ?thesis by blast
qed

end
